theory Spec2Isabelle
  imports Main
begin

section \<open>Python values, exceptions and objects\<close>

text \<open>
  The exceptions the embedded code can raise. \<open>KeyError\<close>, \<open>IndexError\<close>, \<open>TypeError\<close>,
  \<open>ValueError\<close> and \<open>AttributeError\<close> are the built-in ones raised by subscripting,
  \<open>%\<close>-formatting and attribute access. \<open>ResolutionError\<close> and \<open>StructureError\<close> are
  the two error kinds the specification names; no statement of \<open>catchments.py\<close> raises
  them, they are in the type so that statements about them can be written down.
  \<open>OtherError\<close> stands for any further exception a user-supplied callable may raise.
  \<open>NotModelled\<close> is not a Python exception: it marks a \<open>%\<close>-conversion outside the
  fragment of the formatting operator embedded below.
\<close>

datatype pyexn =
    KeyError string
  | IndexError
  | TypeError
  | ValueError
  | AttributeError
  | ResolutionError
  | StructureError
  | OtherError string
  | NotModelled

text \<open>
  A Python object as \<open>catchments.py\<close> probes it: its \<open>name\<close> attribute (if it has one),
  its \<open>__call__\<close> (if \<open>hasattr(obj, '__call__')\<close>) and its \<open>__getitem__\<close>
  (if \<open>hasattr(obj, '__getitem__')\<close>). Unit and constituent identifiers are strings.
\<close>

datatype pyobj =
  PyObj (name_attr: "string option")
        (call_attr: "(string list \<Rightarrow> pyexn + pyobj) option")
        (getitem_attr: "(string \<Rightarrow> pyexn + pyobj) option")

text \<open>A model identifier of the node registry: neither callable nor subscriptable.\<close>

definition plain_model :: "string \<Rightarrow> pyobj" where
  "plain_model nm = PyObj (Some nm) None None"

text \<open>A \<open>dict\<close> used as a provider: subscripting a missing key raises \<open>KeyError\<close>.\<close>

definition dict_provider :: "(string \<rightharpoonup> pyobj) \<Rightarrow> pyobj" where
  "dict_provider m =
     PyObj None None (Some (\<lambda>k. case m k of None \<Rightarrow> Inl (KeyError k) | Some v \<Rightarrow> Inr v))"

text \<open>A function used as a provider.\<close>

definition function_provider :: "(string list \<Rightarrow> pyexn + pyobj) \<Rightarrow> pyobj" where
  "function_provider f = PyObj None (Some f) None"

section \<open>The model resolver\<close>

text \<open>
  \<^verbatim>\<open>
  def model_for(self,provider,*args):
    if hasattr(provider,'__call__'):
      return provider(*args)
    if hasattr(provider,'__getitem__'):
      return provider[args[0]]
    return provider
  \<close>
  \<open>args[0]\<close> on an empty argument tuple raises \<open>IndexError\<close>.
\<close>

definition model_for :: "pyobj \<Rightarrow> string list \<Rightarrow> pyexn + pyobj" where
  "model_for provider args =
     (case call_attr provider of
        Some f \<Rightarrow> f args
      | None \<Rightarrow>
         (case getitem_attr provider of
            Some g \<Rightarrow> (case args of [] \<Rightarrow> Inl IndexError | k # _ \<Rightarrow> g k)
          | None \<Rightarrow> Inr provider))"

section \<open>Templates\<close>

text \<open>
  A node is identified by its model, its process role and its further keyword tags, in the
  order the call gives them. A link joins an output port of one node to an input port of
  another: \<open>OWLink(from_node, from_output, to_node, to_input)\<close>.
\<close>

datatype OWNode =
  OWNode (model: pyobj) (process: string) (params: "(string \<times> string) list")

datatype OWLink =
  OWLink (from_node: OWNode) (from_output: string) (to_node: OWNode) (to_input: string)

record OWTemplate =
  nodes :: "OWNode list"
  links :: "OWLink list"

text \<open>\<open>OWTemplate()\<close>: a template with no node and no link.\<close>

definition OWTemplate_init :: OWTemplate where
  "OWTemplate_init = \<lparr>nodes = [], links = []\<rparr>"

text \<open>
  Modelled from the spec: \<open>OWTemplate.add_node\<close> is imported from the \<open>openwater\<close>
  package and its body is not among the source files. The specification gives its contract
  as \<open>add_node(model, process, **params) -> node_handle\<close>, idempotent on identical
  identity: re-adding a node whose (model, role, parameters) are already in the template
  is a no-op that returns the existing handle. The handle is the node's identity.
\<close>

definition add_node ::
  "OWTemplate \<Rightarrow> pyobj \<Rightarrow> string \<Rightarrow> (string \<times> string) list \<Rightarrow> OWTemplate \<times> OWNode" where
  "add_node template m role tags =
     (let new_node = OWNode m role tags in
      if new_node \<in> set (nodes template) then (template, new_node)
      else (template\<lparr>nodes := nodes template @ [new_node]\<rparr>, new_node))"

text \<open>
  Modelled from the spec: \<open>OWTemplate.add_link\<close> is likewise not among the source files.
  The specification permits several links into one input port and states no check, so the
  link is recorded after those already present.
\<close>

definition add_link :: "OWTemplate \<Rightarrow> OWLink \<Rightarrow> OWTemplate" where
  "add_link template l = template\<lparr>links := links template @ [l]\<rparr>"

section \<open>The catchment descriptor\<close>

text \<open>
  The fields of \<open>SemiLumpedCatchment\<close>. The dictionary \<open>cgu_hrus\<close> is the list of its
  items in iteration order; a Python dictionary holds every key once, so a well-formed
  descriptor has \<open>distinct (map fst (cgu_hrus d))\<close>.
\<close>

record SemiLumpedCatchment =
  hrus :: "string list"
  cgus :: "string list"
  cgu_hrus :: "(string \<times> string) list"
  constituents :: "string list"
  rr :: pyobj
  cg :: pyobj
  routing :: pyobj
  transport :: pyobj

text \<open>
  Modelled from the spec: the node registry \<open>openwater.nodes\<close> is not among the source
  files. The specification describes it as a namespace of named model identifiers, each
  carrying a stable display name; the five the code refers to are taken as plain
  identifiers named as the code names them.
\<close>

definition n_Simhyd :: pyobj where
  "n_Simhyd = plain_model ''Simhyd''"

definition n_EmcDwc :: pyobj where
  "n_EmcDwc = plain_model ''EmcDwc''"

definition n_Muskingum :: pyobj where
  "n_Muskingum = plain_model ''Muskingum''"

definition n_LumpedConstituentRouting :: pyobj where
  "n_LumpedConstituentRouting = plain_model ''LumpedConstituentRouting''"

definition n_DepthToRate :: pyobj where
  "n_DepthToRate = plain_model ''DepthToRate''"

text \<open>\<open>SemiLumpedCatchment.__init__\<close>.\<close>

definition SemiLumpedCatchment_init :: SemiLumpedCatchment where
  "SemiLumpedCatchment_init =
     \<lparr>hrus = [''HRU''], cgus = [''CGU''], cgu_hrus = [(''CGU'', ''HRU'')],
      constituents = [''Con''],
      rr = n_Simhyd, cg = n_EmcDwc, routing = n_Muskingum,
      transport = n_LumpedConstituentRouting\<rparr>"

section \<open>The template builder\<close>

text \<open>
  The first loop of \<open>get_template\<close>, over the constituents:
  \<^verbatim>\<open>
    for con in self.constituents:
        transport_node = template.add_node(self.model_for(self.transport,con),
                                           process='ConstituentRouting',constituent=con)
        template.add_link(OWLink(routing_node,'outflow',transport_node,'outflow'))
        transport[con]=transport_node
  \<close>
  The state is the template and the dictionary \<open>transport\<close>. An exception of
  \<open>model_for\<close> leaves the loop and the function.
\<close>

fun transport_loop ::
  "SemiLumpedCatchment \<Rightarrow> OWNode \<Rightarrow> string list \<Rightarrow> OWTemplate \<Rightarrow> (string \<rightharpoonup> OWNode)
     \<Rightarrow> pyexn + (OWTemplate \<times> (string \<rightharpoonup> OWNode))" where
  "transport_loop self routing_node [] template transport_d = Inr (template, transport_d)"
| "transport_loop self routing_node (con # rest) template transport_d =
     (case model_for (transport self) [con] of
        Inl e \<Rightarrow> Inl e
      | Inr m \<Rightarrow>
         (let (template1, transport_node) =
                add_node template m ''ConstituentRouting'' [(''constituent'', con)];
              template2 =
                add_link template1 (OWLink routing_node ''outflow'' transport_node ''outflow'')
          in transport_loop self routing_node rest template2
               (transport_d(con \<mapsto> transport_node))))"

text \<open>
  The innermost loop, over the source units mapped to the current response unit:
  \<^verbatim>\<open>
            for cgu in [cgu for cgu,h in self.cgu_hrus.items() if h==hru]:
                gen_node = template.add_node(self.model_for(self.cg,con,cgu),
                             process='ConstituentGeneration',constituent=con,lu=cgu)
                template.add_link(OWLink(quickflow_scale_node,'outflow',gen_node,'quickflow'))
                template.add_link(OWLink(baseflow_scale_node,'outflow',gen_node,'baseflow'))
                template.add_link(OWLink(gen_node,'totalLoad',transport_node,'lateralLoad'))
  \<close>
\<close>

definition cgus_of :: "SemiLumpedCatchment \<Rightarrow> string \<Rightarrow> string list" where
  "cgus_of self hru = map fst (filter (\<lambda>(cgu, h). h = hru) (cgu_hrus self))"

fun cgu_loop ::
  "SemiLumpedCatchment \<Rightarrow> string \<Rightarrow> OWNode \<Rightarrow> OWNode \<Rightarrow> OWNode \<Rightarrow> string list \<Rightarrow> OWTemplate
     \<Rightarrow> pyexn + OWTemplate" where
  "cgu_loop self con quickflow_scale_node baseflow_scale_node transport_node [] template =
     Inr template"
| "cgu_loop self con quickflow_scale_node baseflow_scale_node transport_node (cgu # rest)
     template =
     (case model_for (cg self) [con, cgu] of
        Inl e \<Rightarrow> Inl e
      | Inr m \<Rightarrow>
         (let (template1, gen_node) =
                add_node template m ''ConstituentGeneration''
                  [(''constituent'', con), (''lu'', cgu)];
              template2 =
                add_link template1 (OWLink quickflow_scale_node ''outflow'' gen_node ''quickflow'');
              template3 =
                add_link template2 (OWLink baseflow_scale_node ''outflow'' gen_node ''baseflow'');
              template4 =
                add_link template3 (OWLink gen_node ''totalLoad'' transport_node ''lateralLoad'')
          in cgu_loop self con quickflow_scale_node baseflow_scale_node transport_node rest
               template4))"

text \<open>
  The loop over the constituents inside one response unit:
  \<^verbatim>\<open>
        for con in self.constituents:
            transport_node = transport[con]
            template.add_link(OWLink(runoff_scale_node,'outflow',transport_node,'inflow'))
            for cgu in ...
  \<close>
  \<open>transport[con]\<close> raises \<open>KeyError\<close> on a key the dictionary does not hold.
\<close>

fun con_loop ::
  "SemiLumpedCatchment \<Rightarrow> string \<Rightarrow> (string \<rightharpoonup> OWNode) \<Rightarrow> OWNode \<Rightarrow> OWNode \<Rightarrow> OWNode
     \<Rightarrow> string list \<Rightarrow> OWTemplate \<Rightarrow> pyexn + OWTemplate" where
  "con_loop self hru transport_d runoff_scale_node quickflow_scale_node baseflow_scale_node
     [] template = Inr template"
| "con_loop self hru transport_d runoff_scale_node quickflow_scale_node baseflow_scale_node
     (con # rest) template =
     (case transport_d con of
        None \<Rightarrow> Inl (KeyError con)
      | Some transport_node \<Rightarrow>
         (let template1 =
                add_link template (OWLink runoff_scale_node ''outflow'' transport_node ''inflow'')
          in case cgu_loop self con quickflow_scale_node baseflow_scale_node transport_node
                    (cgus_of self hru) template1 of
               Inl e \<Rightarrow> Inl e
             | Inr template2 \<Rightarrow>
                 con_loop self hru transport_d runoff_scale_node quickflow_scale_node
                   baseflow_scale_node rest template2))"

text \<open>
  The loop over the response units:
  \<^verbatim>\<open>
    for hru in self.hrus:
        runoff_node = template.add_node(self.model_for(self.rr,hru),process='RR',hru=hru)
        runoff_scale_node = template.add_node(n.DepthToRate,process='ArealScale',hru=hru,component='Runoff')
        quickflow_scale_node = template.add_node(n.DepthToRate,process='ArealScale',hru=hru,component='Quickflow')
        baseflow_scale_node = template.add_node(n.DepthToRate,process='ArealScale',hru=hru,component='Baseflow')
        template.add_link(OWLink(runoff_node,'runoff',runoff_scale_node,'input'))
        template.add_link(OWLink(runoff_node,'quickflow',quickflow_scale_node,'input'))
        template.add_link(OWLink(runoff_node,'baseflow',baseflow_scale_node,'input'))
        template.add_link(OWLink(runoff_scale_node,'outflow',routing_node,'lateral'))
        for con in self.constituents: ...
  \<close>
\<close>

fun hru_loop ::
  "SemiLumpedCatchment \<Rightarrow> OWNode \<Rightarrow> (string \<rightharpoonup> OWNode) \<Rightarrow> string list \<Rightarrow> OWTemplate
     \<Rightarrow> pyexn + OWTemplate" where
  "hru_loop self routing_node transport_d [] template = Inr template"
| "hru_loop self routing_node transport_d (hru # rest) template =
     (case model_for (rr self) [hru] of
        Inl e \<Rightarrow> Inl e
      | Inr m \<Rightarrow>
         (let (template1, runoff_node) = add_node template m ''RR'' [(''hru'', hru)];
              (template2, runoff_scale_node) =
                add_node template1 n_DepthToRate ''ArealScale''
                  [(''hru'', hru), (''component'', ''Runoff'')];
              (template3, quickflow_scale_node) =
                add_node template2 n_DepthToRate ''ArealScale''
                  [(''hru'', hru), (''component'', ''Quickflow'')];
              (template4, baseflow_scale_node) =
                add_node template3 n_DepthToRate ''ArealScale''
                  [(''hru'', hru), (''component'', ''Baseflow'')];
              template5 =
                add_link template4 (OWLink runoff_node ''runoff'' runoff_scale_node ''input'');
              template6 =
                add_link template5 (OWLink runoff_node ''quickflow'' quickflow_scale_node ''input'');
              template7 =
                add_link template6 (OWLink runoff_node ''baseflow'' baseflow_scale_node ''input'');
              template8 =
                add_link template7 (OWLink runoff_scale_node ''outflow'' routing_node ''lateral'')
          in case con_loop self hru transport_d runoff_scale_node quickflow_scale_node
                    baseflow_scale_node (constituents self) template8 of
               Inl e \<Rightarrow> Inl e
             | Inr template9 \<Rightarrow> hru_loop self routing_node transport_d rest template9))"

text \<open>
  \<open>get_template\<close>: the routing node, then the two loops. The template is local to the
  call, so a raised exception is the whole result and no template reaches the caller.
\<close>

definition get_template :: "SemiLumpedCatchment \<Rightarrow> pyexn + OWTemplate" where
  "get_template self =
     (let (template1, routing_node) =
            add_node OWTemplate_init (routing self) ''FlowRouting'' []
      in case transport_loop self routing_node (constituents self) template1 Map.empty of
           Inl e \<Rightarrow> Inl e
         | Inr (template2, transport_d) \<Rightarrow>
             hru_loop self routing_node transport_d (hrus self) template2)"

section \<open>The network linker\<close>

text \<open>
  A value handed to \<open>link_catchments\<close> as a catchment identifier: an integer, a string,
  \<open>None\<close>, or a tuple of such values.
\<close>

datatype pyval = PyInt int | PyStr string | PyNone | PyTuple "pyval list"

text \<open>\<open>str\<close> of an integer: its decimal digits, with a minus sign when negative.\<close>

definition digit_char :: "nat \<Rightarrow> char" where
  "digit_char n = ''0123456789'' ! n"

function dec_nat :: "nat \<Rightarrow> string" where
  "dec_nat n = (if n < 10 then [digit_char n] else dec_nat (n div 10) @ [digit_char (n mod 10)])"
  by pat_completeness auto
termination
  by (relation "measure id") auto

definition str_int :: "int \<Rightarrow> string" where
  "str_int i = (if i < 0 then CHR ''-'' # dec_nat (nat (- i)) else dec_nat (nat i))"

text \<open>
  \<open>str\<close> of a value. The \<open>str\<close> of a tuple is built from the \<open>repr\<close> of its elements,
  which is outside the fragment embedded here.
\<close>

definition py_str :: "pyval \<Rightarrow> pyexn + string" where
  "py_str v =
     (case v of
        PyInt i \<Rightarrow> Inr (str_int i)
      | PyStr s \<Rightarrow> Inr s
      | PyNone \<Rightarrow> Inr ''None''
      | PyTuple vs \<Rightarrow> Inl NotModelled)"

text \<open>
  The arguments of \<open>format % value\<close>: the elements of \<open>value\<close> when it is a tuple, and
  \<open>value\<close> alone otherwise.
\<close>

definition format_args :: "pyval \<Rightarrow> pyval list" where
  "format_args v = (case v of PyTuple vs \<Rightarrow> vs | _ \<Rightarrow> [v])"

text \<open>
  Python's \<open>format % value\<close>. The format is read from the left, each conversion takes the
  next argument, and the first failure is the result:
  \<^item> \<open>%%\<close> writes a percent sign and takes no argument;
  \<open>%d\<close> (also \<open>%i\<close>, \<open>%u\<close>) takes an argument, which must be a number
  (\<open>TypeError\<close> for a string, \<open>None\<close> or a tuple); \<open>%s\<close> takes an argument and
  writes its \<open>str\<close>;
  \<^item> a conversion met when no argument is left raises \<open>TypeError\<close>
  (not enough arguments), an argument left unused at the end raises \<open>TypeError\<close>
  (not all arguments converted);
  \<^item> a lone \<open>%\<close> at the end raises \<open>ValueError\<close> (incomplete format), and a character
  that is no conversion type raises \<open>ValueError\<close> (unsupported format character);
  \<^item> the other numeric conversions (\<open>o x X e E f F g G\<close>) raise \<open>TypeError\<close> for an
  argument that is not a number; what they write for a number is outside this fragment.

  Mapping keys, flags, widths, precisions, length modifiers and the conversions
  \<open>c r a\<close> are outside this fragment too: the characters that start one are collected in
  \<open>beyond_fragment\<close>. Whatever is outside the fragment gives \<open>NotModelled\<close>.
\<close>

definition beyond_fragment :: "char \<Rightarrow> bool" where
  "beyond_fragment c \<longleftrightarrow> c \<in> set ''(#0- +*123456789.hlLcra''"

fun format_from :: "string \<Rightarrow> pyval list \<Rightarrow> pyexn + string" where
  "format_from [] args = (case args of [] \<Rightarrow> Inr [] | v # rest \<Rightarrow> Inl TypeError)"
| "format_from [c] args =
     (if c = CHR ''%'' then Inl ValueError
      else case args of [] \<Rightarrow> Inr [c] | v # rest \<Rightarrow> Inl TypeError)"
| "format_from (c # k # fmt) args =
     (if c \<noteq> CHR ''%'' then
        (case format_from (k # fmt) args of Inl e \<Rightarrow> Inl e | Inr s \<Rightarrow> Inr (c # s))
      else if k = CHR ''%'' then
        (case format_from fmt args of Inl e \<Rightarrow> Inl e | Inr s \<Rightarrow> Inr (CHR ''%'' # s))
      else if beyond_fragment k then Inl NotModelled
      else
        (case args of
           [] \<Rightarrow> Inl TypeError
         | v # rest \<Rightarrow>
            if k \<in> set ''diu'' then
              (case v of
                 PyInt i \<Rightarrow>
                   (case format_from fmt rest of Inl e \<Rightarrow> Inl e | Inr s \<Rightarrow> Inr (str_int i @ s))
               | _ \<Rightarrow> Inl TypeError)
            else if k \<in> set ''oxXeEfFgG'' then
              (case v of PyInt i \<Rightarrow> Inl NotModelled | _ \<Rightarrow> Inl TypeError)
            else if k = CHR ''s'' then
              (case py_str v of
                 Inl e \<Rightarrow> Inl e
               | Inr t \<Rightarrow>
                   (case format_from fmt rest of Inl e \<Rightarrow> Inl e | Inr s \<Rightarrow> Inr (t @ s)))
            else Inl ValueError))"

definition py_format :: "string \<Rightarrow> pyval \<Rightarrow> pyexn + string" where
  "py_format fmt v = format_from fmt (format_args v)"

text \<open>\<open>obj.name\<close>: \<open>AttributeError\<close> when the object has no such attribute.\<close>

definition get_name :: "pyobj \<Rightarrow> pyexn + string" where
  "get_name obj = (case name_attr obj of None \<Rightarrow> Inl AttributeError | Some nm \<Rightarrow> Inr nm)"

text \<open>
  Modelled from the spec: the network graph belongs to the caller and its class is not
  among the source files. The specification gives the one operation used,
  \<open>add_edge(src_label, dest_label, src=[port,...], dest=[port,...])\<close>, and leaves open
  whether parallel edges are kept. The graph is represented by the edges it was asked to
  add, in the order of the calls.
\<close>

datatype Edge =
  Edge (edge_src: string) (edge_dest: string) (attr_src: "string list") (attr_dest: "string list")

type_synonym graph = "Edge list"

definition add_edge :: "graph \<Rightarrow> string \<Rightarrow> string \<Rightarrow> string list \<Rightarrow> string list \<Rightarrow> graph" where
  "add_edge g src_node dest_node src dest = g @ [Edge src_node dest_node src dest]"

text \<open>
  The list \<open>linkages\<close> of \<open>link_catchments\<close>:
  \<^verbatim>\<open>
    linkages = [('%d-FlowRouting ('+self.routing.name+')','outflow','inflow')] + \
               [(('%%d-ConstituentRouting-%s ('+self.transport.name+')')%c,'outflowLoad','inflowLoad')
                for c in self.constituents]
  \<close>
  The comprehension reads \<open>self.transport.name\<close> and formats once per constituent.
\<close>

fun constituent_linkages ::
  "SemiLumpedCatchment \<Rightarrow> string list \<Rightarrow> pyexn + (string \<times> string \<times> string) list" where
  "constituent_linkages self [] = Inr []"
| "constituent_linkages self (c # rest) =
     (case get_name (transport self) of
        Inl e \<Rightarrow> Inl e
      | Inr nm \<Rightarrow>
         (case py_format (''%%d-ConstituentRouting-%s ('' @ nm @ '')'') (PyStr c) of
            Inl e \<Rightarrow> Inl e
          | Inr lt \<Rightarrow>
             (case constituent_linkages self rest of
                Inl e \<Rightarrow> Inl e
              | Inr ls \<Rightarrow> Inr ((lt, ''outflowLoad'', ''inflowLoad'') # ls))))"

definition linkages :: "SemiLumpedCatchment \<Rightarrow> pyexn + (string \<times> string \<times> string) list" where
  "linkages self =
     (case get_name (routing self) of
        Inl e \<Rightarrow> Inl e
      | Inr nm \<Rightarrow>
         (case constituent_linkages self (constituents self) of
            Inl e \<Rightarrow> Inl e
          | Inr ls \<Rightarrow> Inr ((''%d-FlowRouting ('' @ nm @ '')'', ''outflow'', ''inflow'') # ls)))"

text \<open>
  The loop of \<open>link_catchments\<close>:
  \<^verbatim>\<open>
    for (lt,src,dest) in linkages:
        dest_node = lt%upstream
        src_node = lt%downstream
        graph.add_edge(src_node,dest_node,src=[src],dest=[dest])
  \<close>
  The graph is changed in place, so the result is the graph as the call leaves it together
  with the exception that ended the call, if any.
\<close>

fun link_loop ::
  "(string \<times> string \<times> string) list \<Rightarrow> pyval \<Rightarrow> pyval \<Rightarrow> graph \<Rightarrow> graph \<times> pyexn option" where
  "link_loop [] upstream downstream g = (g, None)"
| "link_loop ((lt, src, dest) # rest) upstream downstream g =
     (case py_format lt upstream of
        Inl e \<Rightarrow> (g, Some e)
      | Inr dest_node \<Rightarrow>
         (case py_format lt downstream of
            Inl e \<Rightarrow> (g, Some e)
          | Inr src_node \<Rightarrow>
              link_loop rest upstream downstream (add_edge g src_node dest_node [src] [dest])))"

definition link_catchments ::
  "SemiLumpedCatchment \<Rightarrow> graph \<Rightarrow> pyval \<Rightarrow> pyval \<Rightarrow> graph \<times> pyexn option" where
  "link_catchments self g upstream downstream =
     (case linkages self of
        Inl e \<Rightarrow> (g, Some e)
      | Inr ls \<Rightarrow> link_loop ls upstream downstream g)"

section \<open>The calls of the template builder, in order\<close>

text \<open>
  The model a provider resolves to for given keys, where \<open>model_for\<close> returns one.
\<close>

definition resolved :: "pyobj \<Rightarrow> string list \<Rightarrow> pyobj" where
  "resolved provider args = projr (model_for provider args)"

text \<open>
  The node identities \<open>get_template\<close> builds: the routing node, the transport node of a constituent, the runoff node of a response unit, its three area-scaling nodes, and the generation node of a constituent and a source unit.
\<close>

definition routing_node_of :: "SemiLumpedCatchment \<Rightarrow> OWNode" where
  "routing_node_of self = OWNode (routing self) ''FlowRouting'' []"

definition transport_node_of :: "SemiLumpedCatchment \<Rightarrow> string \<Rightarrow> OWNode" where
  "transport_node_of self con =
     OWNode (resolved (transport self) [con]) ''ConstituentRouting'' [(''constituent'', con)]"

definition runoff_node_of :: "SemiLumpedCatchment \<Rightarrow> string \<Rightarrow> OWNode" where
  "runoff_node_of self hru = OWNode (resolved (rr self) [hru]) ''RR'' [(''hru'', hru)]"

definition scale_node_of :: "string \<Rightarrow> string \<Rightarrow> OWNode" where
  "scale_node_of hru component =
     OWNode n_DepthToRate ''ArealScale'' [(''hru'', hru), (''component'', component)]"

definition gen_node_of :: "SemiLumpedCatchment \<Rightarrow> string \<Rightarrow> string \<Rightarrow> OWNode" where
  "gen_node_of self con cgu =
     OWNode (resolved (cg self) [con, cgu]) ''ConstituentGeneration''
       [(''constituent'', con), (''lu'', cgu)]"

text \<open>
  Adding a sequence of node identities to a node list, keeping the first occurrence of each: the effect of a run of \<open>add_node\<close> calls on the \<open>nodes\<close> of a template.
\<close>

fun add_nodes :: "OWNode list \<Rightarrow> OWNode list \<Rightarrow> OWNode list" where
  "add_nodes acc [] = acc"
| "add_nodes acc (x # xs) = add_nodes (if x \<in> set acc then acc else acc @ [x]) xs"

text \<open>
  The three links made for one source unit in the innermost loop.
\<close>

definition gen_links :: "SemiLumpedCatchment \<Rightarrow> string \<Rightarrow> OWNode \<Rightarrow> OWNode \<Rightarrow> OWNode \<Rightarrow> string \<Rightarrow> OWLink list" where
  "gen_links self con q b tn cgu =
     [OWLink q ''outflow'' (gen_node_of self con cgu) ''quickflow'',
      OWLink b ''outflow'' (gen_node_of self con cgu) ''baseflow'',
      OWLink (gen_node_of self con cgu) ''totalLoad'' tn ''lateralLoad'']"

text \<open>
  The nodes and links one constituent contributes inside one response unit.
\<close>

definition con_nodes :: "SemiLumpedCatchment \<Rightarrow> string \<Rightarrow> string \<Rightarrow> OWNode list" where
  "con_nodes self hru con = map (gen_node_of self con) (cgus_of self hru)"

definition con_links ::
  "SemiLumpedCatchment \<Rightarrow> string \<Rightarrow> OWNode \<Rightarrow> OWNode \<Rightarrow> OWNode \<Rightarrow> string \<Rightarrow> OWLink list" where
  "con_links self hru rs q b con =
     OWLink rs ''outflow'' (transport_node_of self con) ''inflow'' #
     concat (map (gen_links self con q b (transport_node_of self con)) (cgus_of self hru))"

text \<open>
  The nodes and links one response unit contributes.
\<close>

definition hru_nodes :: "SemiLumpedCatchment \<Rightarrow> string \<Rightarrow> OWNode list" where
  "hru_nodes self hru =
     [runoff_node_of self hru, scale_node_of hru ''Runoff'', scale_node_of hru ''Quickflow'',
      scale_node_of hru ''Baseflow''] @
     concat (map (con_nodes self hru) (constituents self))"

definition hru_links :: "SemiLumpedCatchment \<Rightarrow> OWNode \<Rightarrow> string \<Rightarrow> OWLink list" where
  "hru_links self rn hru =
     [OWLink (runoff_node_of self hru) ''runoff'' (scale_node_of hru ''Runoff'') ''input'',
      OWLink (runoff_node_of self hru) ''quickflow'' (scale_node_of hru ''Quickflow'') ''input'',
      OWLink (runoff_node_of self hru) ''baseflow'' (scale_node_of hru ''Baseflow'') ''input'',
      OWLink (scale_node_of hru ''Runoff'') ''outflow'' rn ''lateral''] @
     concat (map (con_links self hru (scale_node_of hru ''Runoff'')
                    (scale_node_of hru ''Quickflow'') (scale_node_of hru ''Baseflow''))
               (constituents self))"

text \<open>
  The whole sequence of \<open>add_node\<close> and \<open>add_link\<close> calls of \<open>get_template\<close>, in call order.
\<close>

definition node_seq :: "SemiLumpedCatchment \<Rightarrow> OWNode list" where
  "node_seq self =
     routing_node_of self # map (transport_node_of self) (constituents self) @
     concat (map (hru_nodes self) (hrus self))"

definition link_seq :: "SemiLumpedCatchment \<Rightarrow> OWLink list" where
  "link_seq self =
     map (\<lambda>con. OWLink (routing_node_of self) ''outflow'' (transport_node_of self con) ''outflow'')
       (constituents self) @
     concat (map (hru_links self (routing_node_of self)) (hrus self))"

text \<open>
  Every call of \<open>model_for\<close> that \<open>get_template\<close> makes returns a model.
\<close>

definition resolvable :: "SemiLumpedCatchment \<Rightarrow> bool" where
  "resolvable self \<longleftrightarrow>
     (\<forall>con\<in>set (constituents self). \<not> isl (model_for (transport self) [con])) \<and>
     (\<forall>hru\<in>set (hrus self). \<not> isl (model_for (rr self) [hru])) \<and>
     (\<forall>hru\<in>set (hrus self). \<forall>con\<in>set (constituents self). \<forall>cgu\<in>set (cgus_of self hru).
        \<not> isl (model_for (cg self) [con, cgu]))"

text \<open>
  Every source unit of the mapping is mapped onto a response unit of the descriptor.
\<close>

definition all_mapped :: "SemiLumpedCatchment \<Rightarrow> bool" where
  "all_mapped self \<longleftrightarrow> snd ` set (cgu_hrus self) \<subseteq> set (hrus self)"

text \<open>The number of nodes of the template a call returned, if it returned one.\<close>

definition node_count :: "pyexn + OWTemplate \<Rightarrow> nat option" where
  "node_count r = (case r of Inl e \<Rightarrow> None | Inr t \<Rightarrow> Some (length (nodes t)))"

text \<open>
  The descriptor without the entries of the mapping whose response unit is not a response
  unit of the descriptor.
\<close>

definition drop_dangling :: "SemiLumpedCatchment \<Rightarrow> SemiLumpedCatchment" where
  "drop_dangling self =
     self\<lparr>cgu_hrus := filter (\<lambda>(u, h). h \<in> set (hrus self)) (cgu_hrus self)\<rparr>"

text \<open>
  Two descriptors that are equal as Python values: equal lists, equal providers, and
  dictionaries \<open>cgu_hrus\<close> with the same items, in whatever order they were inserted.
\<close>

definition same_descriptor :: "SemiLumpedCatchment \<Rightarrow> SemiLumpedCatchment \<Rightarrow> bool" where
  "same_descriptor d1 d2 \<longleftrightarrow>
     hrus d1 = hrus d2 \<and> cgus d1 = cgus d2 \<and> set (cgu_hrus d1) = set (cgu_hrus d2) \<and>
     constituents d1 = constituents d2 \<and> rr d1 = rr d2 \<and> cg d1 = cg d2 \<and>
     routing d1 = routing d2 \<and> transport d1 = transport d2"

text \<open>
  A string without a percent sign, and the two vertex labels \<open>link_catchments\<close> is
  meant to build for the catchment with integer identifier \<open>i\<close>: from the name of the
  routing model, and from the name of the transport model and a constituent.
\<close>

definition percent_free :: "string \<Rightarrow> bool" where
  "percent_free s \<longleftrightarrow> CHR ''%'' \<notin> set s"

definition flow_label :: "string \<Rightarrow> int \<Rightarrow> string" where
  "flow_label rn i = str_int i @ ''-FlowRouting ('' @ rn @ '')''"

definition load_label :: "string \<Rightarrow> string \<Rightarrow> int \<Rightarrow> string" where
  "load_label tn c i = str_int i @ ''-ConstituentRouting-'' @ c @ '' ('' @ tn @ '')''"

text \<open>
  The two label templates of \<open>linkages\<close>, as the loop of \<open>link_catchments\<close> receives
  them when the names hold no percent sign.
\<close>

definition flow_template :: "string \<Rightarrow> string" where
  "flow_template rn = ''%d-FlowRouting ('' @ rn @ '')''"

definition load_template :: "string \<Rightarrow> string \<Rightarrow> string" where
  "load_template tn c = ''%d-ConstituentRouting-'' @ c @ '' ('' @ tn @ '')''"



section \<open>Concrete descriptors\<close>

text \<open>
  The descriptor of the end-to-end scenario: response units \<open>[H1]\<close>, source units
  \<open>{S1: H1}\<close>, constituents \<open>[N]\<close>, and the models \<open>__init__\<close> sets.
\<close>

definition scenario :: SemiLumpedCatchment where
  "scenario = SemiLumpedCatchment_init
     \<lparr>hrus := [''H1''], cgus := [''S1''], cgu_hrus := [(''S1'', ''H1'')],
      constituents := [''N'']\<rparr>"

text \<open>The default catchment with two constituents.\<close>

definition two_constituents :: SemiLumpedCatchment where
  "two_constituents = SemiLumpedCatchment_init\<lparr>constituents := [''N'', ''P'']\<rparr>"

text \<open>
  Two response units, three source units (two on \<open>H1\<close>, one on \<open>H2\<close>) and two
  constituents.
\<close>

definition example_catchment :: SemiLumpedCatchment where
  "example_catchment = SemiLumpedCatchment_init
     \<lparr>hrus := [''H1'', ''H2''], cgus := [''S1'', ''S2'', ''S3''],
      cgu_hrus := [(''S1'', ''H1''), (''S2'', ''H1''), (''S3'', ''H2'')],
      constituents := [''N'', ''P'']\<rparr>"

text \<open>A source unit mapped onto a response unit the descriptor does not have.\<close>

definition dangling_catchment :: SemiLumpedCatchment where
  "dangling_catchment = SemiLumpedCatchment_init
     \<lparr>hrus := [''H1''], cgus := [''S1''], cgu_hrus := [(''S1'', ''X'')],
      constituents := [''N'']\<rparr>"

text \<open>
  The catchment \<open>example_catchment\<close> with the entries of its mapping inserted in another
  order: equal to it as a Python value.
\<close>

definition example_reordered :: SemiLumpedCatchment where
  "example_reordered = example_catchment
     \<lparr>cgu_hrus := [(''S3'', ''H2''), (''S2'', ''H1''), (''S1'', ''H1'')]\<rparr>"

text \<open>The default catchment with a constituent whose name is a conversion.\<close>

definition percent_catchment :: SemiLumpedCatchment where
  "percent_catchment = SemiLumpedCatchment_init\<lparr>constituents := [''%d'']\<rparr>"

section \<open>Basic facts about templates\<close>

lemma add_nodes_append: "add_nodes acc (xs @ ys) = add_nodes (add_nodes acc xs) ys"
  by (induction xs arbitrary: acc) simp_all

lemma set_add_nodes: "set (add_nodes acc xs) = set acc \<union> set xs"
  by (induction xs arbitrary: acc) auto

lemma distinct_add_nodes: "distinct acc \<Longrightarrow> distinct (add_nodes acc xs)"
  by (induction xs arbitrary: acc) auto

lemma add_nodes_fresh: "distinct (acc @ xs) \<Longrightarrow> add_nodes acc xs = acc @ xs"
  by (induction xs arbitrary: acc) auto

lemma add_node_nodes: "nodes (fst (add_node t m r p)) = add_nodes (nodes t) [OWNode m r p]"
  by (simp add: add_node_def Let_def)

lemma add_node_links: "links (fst (add_node t m r p)) = links t"
  by (simp add: add_node_def Let_def)

lemma add_node_handle: "snd (add_node t m r p) = OWNode m r p"
  by (simp add: add_node_def Let_def)

lemma add_link_nodes: "nodes (add_link t l) = nodes t"
  by (simp add: add_link_def)

lemma add_link_links: "links (add_link t l) = links t @ [l]"
  by (simp add: add_link_def)

lemmas tsimps = add_node_nodes add_node_links add_node_handle add_link_nodes add_link_links
  split_beta Let_def

lemma cgu_loop_Inr:
  "cgu_loop self con q b tn cs t = Inr t' \<Longrightarrow>
     nodes t' = add_nodes (nodes t) (map (gen_node_of self con) cs) \<and>
     links t' = links t @ concat (map (gen_links self con q b tn) cs)"
proof (induction cs arbitrary: t)
  case Nil
  then show ?case by simp
next
  case (Cons c cs)
  from Cons.prems obtain m where m: "model_for (cg self) [con, c] = Inr m"
    by (auto split: sum.splits)
  have g: "gen_node_of self con c = OWNode m ''ConstituentGeneration'' [(''constituent'', con), (''lu'', c)]"
    by (simp add: gen_node_of_def resolved_def m)
  show ?case
    using Cons.prems Cons.IH
    by (simp add: m tsimps g gen_links_def)
qed

lemma cgu_loop_total:
  "(\<forall>c\<in>set cs. \<not> isl (model_for (cg self) [con, c])) \<Longrightarrow>
     \<exists>t'. cgu_loop self con q b tn cs t = Inr t'"
proof (induction cs arbitrary: t)
  case Nil
  then show ?case by simp
next
  case (Cons c cs)
  then obtain m where m: "model_for (cg self) [con, c] = Inr m"
    by (cases "model_for (cg self) [con, c]") auto
  show ?case using Cons by (simp add: m tsimps)
qed

lemma cgu_loop_resolves:
  "cgu_loop self con q b tn cs t = Inr t' \<Longrightarrow> c \<in> set cs \<Longrightarrow> \<not> isl (model_for (cg self) [con, c])"
  by (induction cs arbitrary: t) (auto split: sum.splits simp: tsimps)

lemma con_loop_Inr:
  "con_loop self hru td rs q b cons t = Inr t' \<Longrightarrow>
   (\<forall>c\<in>set cons. td c = Some (transport_node_of self c)) \<Longrightarrow>
     nodes t' = add_nodes (nodes t) (concat (map (con_nodes self hru) cons)) \<and>
     links t' = links t @ concat (map (con_links self hru rs q b) cons)"
proof (induction cons arbitrary: t)
  case Nil
  then show ?case by simp
next
  case (Cons c cons)
  have td: "td c = Some (transport_node_of self c)"
    using Cons.prems(2) by simp
  from Cons.prems(1) td obtain t1 where
    t1: "cgu_loop self c q b (transport_node_of self c) (cgus_of self hru)
           (add_link t (OWLink rs ''outflow'' (transport_node_of self c) ''inflow'')) = Inr t1"
    and rest: "con_loop self hru td rs q b cons t1 = Inr t'"
    by (auto simp: Let_def split: sum.splits)
  from cgu_loop_Inr[OF t1] have
    n1: "nodes t1 = add_nodes (nodes t) (con_nodes self hru c)" and
    l1: "links t1 = links t @ con_links self hru rs q b c"
    by (simp_all add: tsimps con_nodes_def con_links_def)
  from Cons.IH[OF rest] Cons.prems(2) have
    "nodes t' = add_nodes (nodes t1) (concat (map (con_nodes self hru) cons))"
    "links t' = links t1 @ concat (map (con_links self hru rs q b) cons)"
    by simp_all
  then show ?case
    by (simp add: n1 l1 add_nodes_append)
qed

lemma hru_loop_Inr:
  "hru_loop self rn td hs t = Inr t' \<Longrightarrow>
   (\<forall>c\<in>set (constituents self). td c = Some (transport_node_of self c)) \<Longrightarrow>
     nodes t' = add_nodes (nodes t) (concat (map (hru_nodes self) hs)) \<and>
     links t' = links t @ concat (map (hru_links self rn) hs)"
proof (induction hs arbitrary: t)
  case Nil
  then show ?case by simp
next
  case (Cons h hs)
  from Cons.prems(1) obtain m where m: "model_for (rr self) [h] = Inr m"
    by (auto split: sum.splits)
  have r: "runoff_node_of self h = OWNode m ''RR'' [(''hru'', h)]"
    by (simp add: runoff_node_of_def resolved_def m)
  define t8 where "t8 =
    (let (template1, runoff_node) = add_node t m ''RR'' [(''hru'', h)];
              (template2, runoff_scale_node) =
                add_node template1 n_DepthToRate ''ArealScale''
                  [(''hru'', h), (''component'', ''Runoff'')];
              (template3, quickflow_scale_node) =
                add_node template2 n_DepthToRate ''ArealScale''
                  [(''hru'', h), (''component'', ''Quickflow'')];
              (template4, baseflow_scale_node) =
                add_node template3 n_DepthToRate ''ArealScale''
                  [(''hru'', h), (''component'', ''Baseflow'')];
              template5 =
                add_link template4 (OWLink runoff_node ''runoff'' runoff_scale_node ''input'');
              template6 =
                add_link template5 (OWLink runoff_node ''quickflow'' quickflow_scale_node ''input'');
              template7 =
                add_link template6 (OWLink runoff_node ''baseflow'' baseflow_scale_node ''input'')
     in add_link template7 (OWLink runoff_scale_node ''outflow'' rn ''lateral''))"
  have n8: "nodes t8 = add_nodes (nodes t)
      [runoff_node_of self h, scale_node_of h ''Runoff'', scale_node_of h ''Quickflow'',
       scale_node_of h ''Baseflow'']"
    by (simp add: t8_def tsimps r scale_node_of_def del: add_nodes.simps)
       (simp add: add_nodes_append[symmetric] del: add_nodes.simps)
  have l8: "links t8 = links t @
     [OWLink (runoff_node_of self h) ''runoff'' (scale_node_of h ''Runoff'') ''input'',
      OWLink (runoff_node_of self h) ''quickflow'' (scale_node_of h ''Quickflow'') ''input'',
      OWLink (runoff_node_of self h) ''baseflow'' (scale_node_of h ''Baseflow'') ''input'',
      OWLink (scale_node_of h ''Runoff'') ''outflow'' rn ''lateral'']"
    by (simp add: t8_def tsimps r scale_node_of_def)
  from Cons.prems(1) obtain t9 where
    t9: "con_loop self h td (scale_node_of h ''Runoff'') (scale_node_of h ''Quickflow'')
           (scale_node_of h ''Baseflow'') (constituents self) t8 = Inr t9"
    and rest: "hru_loop self rn td hs t9 = Inr t'"
    by (auto simp: m t8_def tsimps scale_node_of_def split: sum.splits)
  from con_loop_Inr[OF t9 Cons.prems(2)] have
    n9': "nodes t9 = add_nodes (nodes t8) (concat (map (con_nodes self h) (constituents self)))"
    and l9': "links t9 = links t8 @
       concat (map (con_links self h (scale_node_of h ''Runoff'')
                    (scale_node_of h ''Quickflow'') (scale_node_of h ''Baseflow''))
               (constituents self))"
    by simp_all
  have n9: "nodes t9 = add_nodes (nodes t) (hru_nodes self h)"
    by (simp only: n9' n8 hru_nodes_def add_nodes_append)
  have l9: "links t9 = links t @ hru_links self rn h"
    by (simp only: l9' l8 hru_links_def append_assoc)
  from Cons.IH[OF rest Cons.prems(2)] show ?case
    by (simp add: n9 l9 add_nodes_append)
qed

lemma transport_loop_Inr:
  "transport_loop self rn cons t td = Inr (t', td') \<Longrightarrow>
     nodes t' = add_nodes (nodes t) (map (transport_node_of self) cons) \<and>
     links t' = links t @
        map (\<lambda>con. OWLink rn ''outflow'' (transport_node_of self con) ''outflow'') cons \<and>
     (\<forall>c. td' c = (if c \<in> set cons then Some (transport_node_of self c) else td c))"
proof (induction cons arbitrary: t td)
  case Nil
  then show ?case by simp
next
  case (Cons c cons)
  from Cons.prems obtain m where m: "model_for (transport self) [c] = Inr m"
    by (auto split: sum.splits)
  have g: "transport_node_of self c = OWNode m ''ConstituentRouting'' [(''constituent'', c)]"
    by (simp add: transport_node_of_def resolved_def m)
  from Cons.prems have rest: "transport_loop self rn cons
      (add_link (fst (add_node t m ''ConstituentRouting'' [(''constituent'', c)]))
         (OWLink rn ''outflow'' (transport_node_of self c) ''outflow''))
      (td(c \<mapsto> transport_node_of self c)) = Inr (t', td')"
    by (simp add: m tsimps g)
  from Cons.IH[OF rest] show ?case
    by (simp add: tsimps g)
qed

lemma get_template_Inr:
  assumes "get_template self = Inr t"
  shows "nodes t = add_nodes [] (node_seq self)" and "links t = link_seq self"
proof -
  let ?rn = "routing_node_of self"
  let ?t1 = "fst (add_node OWTemplate_init (routing self) ''FlowRouting'' [])"
  from assms obtain t2 td where
    tl: "transport_loop self ?rn (constituents self) ?t1 Map.empty = Inr (t2, td)" and
    hl: "hru_loop self ?rn td (hrus self) t2 = Inr t"
    by (auto simp: get_template_def tsimps routing_node_of_def split: sum.splits)
  have n1: "nodes ?t1 = [?rn]" and l1: "links ?t1 = []"
    by (simp_all add: tsimps OWTemplate_init_def routing_node_of_def)
  from transport_loop_Inr[OF tl] have
    n2: "nodes t2 = add_nodes [?rn] (map (transport_node_of self) (constituents self))" and
    l2: "links t2 =
       map (\<lambda>con. OWLink ?rn ''outflow'' (transport_node_of self con) ''outflow'')
         (constituents self)" and
    td: "\<forall>c\<in>set (constituents self). td c = Some (transport_node_of self c)"
    by (simp_all add: n1 l1)
  from hru_loop_Inr[OF hl td] have
    n3: "nodes t = add_nodes (nodes t2) (concat (map (hru_nodes self) (hrus self)))" and
    l3: "links t = links t2 @ concat (map (hru_links self ?rn) (hrus self))"
    by simp_all
  have "add_nodes [] (node_seq self) =
        add_nodes (add_nodes [?rn] (map (transport_node_of self) (constituents self)))
          (concat (map (hru_nodes self) (hrus self)))"
    by (simp add: node_seq_def add_nodes_append)
  then show "nodes t = add_nodes [] (node_seq self)"
    by (simp only: n3 n2)
  show "links t = link_seq self"
    by (simp only: l3 l2 link_seq_def)
qed

lemma sum_case_Inr:
  "\<exists>y. x = Inr y \<Longrightarrow> (case x of Inl e \<Rightarrow> Inl e | Inr y \<Rightarrow> f y) = f (projr x)"
  by auto

lemma con_loop_total:
  "(\<forall>c\<in>set cons. td c \<noteq> None) \<Longrightarrow>
   (\<forall>c\<in>set cons. \<forall>u\<in>set (cgus_of self hru). \<not> isl (model_for (cg self) [c, u])) \<Longrightarrow>
     \<exists>t'. con_loop self hru td rs q b cons t = Inr t'"
proof (induction cons arbitrary: t)
  case Nil
  then show ?case by simp
next
  case (Cons c cons)
  from Cons.prems(1) obtain tn where tn: "td c = Some tn" by auto
  from Cons.prems(2) have "\<forall>u\<in>set (cgus_of self hru). \<not> isl (model_for (cg self) [c, u])"
    by simp
  from cgu_loop_total[OF this] obtain t1 where
    "cgu_loop self c q b tn (cgus_of self hru)
       (add_link t (OWLink rs ''outflow'' tn ''inflow'')) = Inr t1"
    by blast
  with Cons show ?case by (simp add: tn)
qed

lemma hru_loop_total:
  "(\<forall>c\<in>set (constituents self). td c \<noteq> None) \<Longrightarrow>
   (\<forall>h\<in>set hs. \<not> isl (model_for (rr self) [h])) \<Longrightarrow>
   (\<forall>h\<in>set hs. \<forall>c\<in>set (constituents self). \<forall>u\<in>set (cgus_of self h).
       \<not> isl (model_for (cg self) [c, u])) \<Longrightarrow>
     \<exists>t'. hru_loop self rn td hs t = Inr t'"
proof (induction hs arbitrary: t)
  case Nil
  then show ?case by simp
next
  case (Cons h hs)
  from Cons.prems(2) obtain m where m: "model_for (rr self) [h] = Inr m"
    by (cases "model_for (rr self) [h]") auto
  from Cons.prems(3)
  have "\<forall>c\<in>set (constituents self). \<forall>u\<in>set (cgus_of self h). \<not> isl (model_for (cg self) [c, u])"
    by simp
  from con_loop_total[OF Cons.prems(1) this]
  have ct: "\<And>rs q b t. \<exists>t'. con_loop self h td rs q b (constituents self) t = Inr t'"
    by blast
  from Cons.IH Cons.prems have ih: "\<And>t. \<exists>t'. hru_loop self rn td hs t = Inr t'"
    by simp
  show ?case
    by (simp add: m tsimps sum_case_Inr ct ih)
qed

lemma transport_loop_total:
  "(\<forall>c\<in>set cons. \<not> isl (model_for (transport self) [c])) \<Longrightarrow>
     \<exists>t' td'. transport_loop self rn cons t td = Inr (t', td')"
proof (induction cons arbitrary: t td)
  case Nil
  then show ?case by simp
next
  case (Cons c cons)
  then obtain m where m: "model_for (transport self) [c] = Inr m"
    by (cases "model_for (transport self) [c]") auto
  show ?case using Cons by (simp add: m tsimps)
qed

lemma get_template_total:
  assumes "resolvable self"
  shows "\<exists>t. get_template self = Inr t"
proof -
  let ?rn = "routing_node_of self"
  let ?t1 = "fst (add_node OWTemplate_init (routing self) ''FlowRouting'' [])"
  from assms have "\<forall>c\<in>set (constituents self). \<not> isl (model_for (transport self) [c])"
    by (simp add: resolvable_def)
  from transport_loop_total[OF this] obtain t2 td where
    tl: "transport_loop self ?rn (constituents self) ?t1 Map.empty = Inr (t2, td)"
    by blast
  from transport_loop_Inr[OF tl] have td: "\<forall>c\<in>set (constituents self). td c \<noteq> None"
    by simp
  from assms have
    "\<forall>h\<in>set (hrus self). \<not> isl (model_for (rr self) [h])"
    "\<forall>h\<in>set (hrus self). \<forall>c\<in>set (constituents self). \<forall>u\<in>set (cgus_of self h).
       \<not> isl (model_for (cg self) [c, u])"
    by (simp_all add: resolvable_def)
  from hru_loop_total[OF td this] obtain t where "hru_loop self ?rn td (hrus self) t2 = Inr t"
    by blast
  with tl show ?thesis
    by (simp add: get_template_def tsimps routing_node_of_def)
qed

section \<open>The nodes and links of a built template\<close>

lemmas node_defs = routing_node_of_def transport_node_of_def runoff_node_of_def
  scale_node_of_def gen_node_of_def

lemma in_cgus_of: "u \<in> set (cgus_of self h) \<longleftrightarrow> (u, h) \<in> set (cgu_hrus self)"
  by (auto simp: cgus_of_def image_iff)

lemma distinct_cgus_of: "distinct (map fst (cgu_hrus self)) \<Longrightarrow> distinct (cgus_of self h)"
  by (simp add: cgus_of_def distinct_map_filter)

lemma in_con_nodes:
  "nd \<in> set (con_nodes self h c) \<longleftrightarrow>
     (\<exists>u. (u, h) \<in> set (cgu_hrus self) \<and> nd = gen_node_of self c u)"
  by (auto simp: con_nodes_def in_cgus_of)

lemma distinct_con_nodes:
  "distinct (map fst (cgu_hrus self)) \<Longrightarrow> distinct (con_nodes self h c)"
  unfolding con_nodes_def
  by (rule iffD2[OF distinct_map]) (simp add: distinct_cgus_of inj_on_def gen_node_of_def)

lemma distinct_con_level:
  "distinct cons \<Longrightarrow> distinct (map fst (cgu_hrus self)) \<Longrightarrow>
     distinct (concat (map (con_nodes self h) cons))"
proof (induction cons)
  case Nil
  then show ?case by simp
next
  case (Cons c cons)
  have "set (con_nodes self h c) \<inter> set (concat (map (con_nodes self h) cons)) = {}"
    using Cons.prems(1) by (auto simp: in_con_nodes gen_node_of_def)
  with Cons show ?case by (simp add: distinct_con_nodes)
qed

lemma in_hru_nodes:
  "nd \<in> set (hru_nodes self h) \<longleftrightarrow>
     nd = runoff_node_of self h \<or> nd = scale_node_of h ''Runoff'' \<or>
     nd = scale_node_of h ''Quickflow'' \<or> nd = scale_node_of h ''Baseflow'' \<or>
     (\<exists>c u. c \<in> set (constituents self) \<and> (u, h) \<in> set (cgu_hrus self) \<and>
            nd = gen_node_of self c u)"
  by (auto simp: hru_nodes_def in_con_nodes)

lemma distinct_hru_nodes:
  "distinct (constituents self) \<Longrightarrow> distinct (map fst (cgu_hrus self)) \<Longrightarrow>
     distinct (hru_nodes self h)"
  by (auto simp: hru_nodes_def distinct_con_level in_con_nodes node_defs)

lemma distinct_hru_level:
  "distinct hs \<Longrightarrow> distinct (constituents self) \<Longrightarrow> distinct (map fst (cgu_hrus self)) \<Longrightarrow>
     distinct (concat (map (hru_nodes self) hs))"
proof (induction hs)
  case Nil
  then show ?case by simp
next
  case (Cons h hs)
  have "nd \<notin> set (hru_nodes self h')" if "nd \<in> set (hru_nodes self h)" "h' \<in> set hs" for nd h'
  proof -
    from that(2) Cons.prems(1) have ne: "h \<noteq> h'" by auto
    show ?thesis
      using that(1) ne eq_key_imp_eq_value[OF Cons.prems(3)]
      by (auto simp: in_hru_nodes node_defs)
  qed
  then have "set (hru_nodes self h) \<inter> set (concat (map (hru_nodes self) hs)) = {}"
    by auto
  with Cons show ?case by (simp add: distinct_hru_nodes)
qed

lemma distinct_node_seq:
  assumes "distinct (hrus self)" "distinct (constituents self)"
    "distinct (map fst (cgu_hrus self))"
  shows "distinct (node_seq self)"
proof -
  have 1: "distinct (map (transport_node_of self) (constituents self))"
    by (rule iffD2[OF distinct_map]) (simp add: assms inj_on_def transport_node_of_def)
  have 2: "routing_node_of self \<notin> set (map (transport_node_of self) (constituents self))"
    by (auto simp: node_defs)
  have 3: "routing_node_of self \<notin> set (concat (map (hru_nodes self) (hrus self)))"
    by (auto simp: in_hru_nodes node_defs)
  have 4: "set (map (transport_node_of self) (constituents self)) \<inter>
           set (concat (map (hru_nodes self) (hrus self))) = {}"
    by (auto simp: in_hru_nodes node_defs)
  show ?thesis
    unfolding node_seq_def
    using 1 2 3 4 distinct_hru_level[OF assms] by simp
qed

lemma get_template_nodes:
  assumes "get_template self = Inr t" "distinct (hrus self)" "distinct (constituents self)"
    "distinct (map fst (cgu_hrus self))"
  shows "nodes t = node_seq self"
  using get_template_Inr(1)[OF assms(1)] add_nodes_fresh[of "[]" "node_seq self"]
    distinct_node_seq[OF assms(2-4)]
  by simp

lemma length_filter_disj:
  "(\<forall>x\<in>set xs. \<not> (P x \<and> Q x)) \<Longrightarrow>
     length (filter P xs) + length (filter Q xs) = length (filter (\<lambda>x. P x \<or> Q x) xs)"
  by (induction xs) auto

lemma sum_length_cgus_of:
  "distinct hs \<Longrightarrow>
     sum_list (map (\<lambda>h. length (cgus_of self h)) hs) =
     length (filter (\<lambda>(u, h). h \<in> set hs) (cgu_hrus self))"
proof (induction hs)
  case Nil
  then show ?case by simp
next
  case (Cons h hs)
  have "length (cgus_of self h) + length (filter (\<lambda>(u, h'). h' \<in> set hs) (cgu_hrus self)) =
        length (filter (\<lambda>x. (case x of (u, h') \<Rightarrow> h' = h) \<or> (case x of (u, h') \<Rightarrow> h' \<in> set hs))
                  (cgu_hrus self))"
    unfolding cgus_of_def length_map
    by (rule length_filter_disj) (use Cons.prems in auto)
  also have "\<dots> = length (filter (\<lambda>(u, h'). h' \<in> set (h # hs)) (cgu_hrus self))"
    by (rule arg_cong[where f = length], rule filter_cong) auto
  finally show ?case using Cons by simp
qed

lemma length_hru_nodes:
  "length (hru_nodes self h) = 4 + length (constituents self) * length (cgus_of self h)"
  by (simp add: hru_nodes_def con_nodes_def length_concat comp_def sum_list_triv)

lemma length_node_seq:
  "distinct (hrus self) \<Longrightarrow>
   length (node_seq self) =
     1 + length (constituents self) + length (hrus self) * (1 + 3) +
     length (constituents self) *
       length (filter (\<lambda>(u, h). h \<in> set (hrus self)) (cgu_hrus self))"
proof -
  assume d: "distinct (hrus self)"
  have "sum_list (map (\<lambda>h. length (hru_nodes self h)) (hrus self)) =
        length (hrus self) * 4 +
        length (constituents self) * sum_list (map (\<lambda>h. length (cgus_of self h)) (hrus self))"
    by (induction "hrus self") (simp_all add: length_hru_nodes sum_list_addf sum_list_const_mult sum_list_triv algebra_simps)
  then show ?thesis
    by (simp add: node_seq_def length_concat comp_def sum_length_cgus_of[OF d])
qed

lemma concat_map_select:
  "distinct xs \<Longrightarrow> a \<in> set xs \<Longrightarrow> concat (map (\<lambda>x. if x = a then f x else []) xs) = f a"
  by (induction xs) auto

lemma transport_node_of_eq: "transport_node_of self c = transport_node_of self c' \<longleftrightarrow> c = c'"
  by (auto simp: transport_node_of_def)

lemma filter_con_links_lateral:
  "filter (\<lambda>l. to_node l = rn \<and> to_input l = ''lateral'') (con_links self h rs q b c) = []"
  by (simp add: con_links_def gen_links_def filter_concat comp_def)

lemma filter_hru_links_lateral:
  "filter (\<lambda>l. to_node l = rn \<and> to_input l = ''lateral'') (hru_links self rn h) =
     [OWLink (scale_node_of h ''Runoff'') ''outflow'' rn ''lateral'']"
  by (simp add: hru_links_def filter_concat comp_def filter_con_links_lateral)

lemma filter_con_links_inflow:
  "filter (\<lambda>l. to_node l = transport_node_of self c0 \<and> to_input l = ''inflow'')
     (con_links self h rs q b c) =
     (if c = c0 then [OWLink rs ''outflow'' (transport_node_of self c0) ''inflow''] else [])"
  by (simp add: con_links_def gen_links_def filter_concat comp_def transport_node_of_eq)

lemma filter_hru_links_inflow:
  "distinct (constituents self) \<Longrightarrow> c0 \<in> set (constituents self) \<Longrightarrow>
   filter (\<lambda>l. to_node l = transport_node_of self c0 \<and> to_input l = ''inflow'')
     (hru_links self rn h) =
     [OWLink (scale_node_of h ''Runoff'') ''outflow'' (transport_node_of self c0) ''inflow'']"
  by (simp add: hru_links_def filter_concat comp_def filter_con_links_inflow concat_map_select)

lemma filter_con_links_lateralLoad:
  "filter (\<lambda>l. to_node l = transport_node_of self c0 \<and> to_input l = ''lateralLoad'')
     (con_links self h rs q b c) =
     (if c = c0 then
        map (\<lambda>u. OWLink (gen_node_of self c0 u) ''totalLoad'' (transport_node_of self c0)
                   ''lateralLoad'') (cgus_of self h)
      else [])"
  by (simp add: con_links_def gen_links_def filter_concat comp_def transport_node_of_eq
        concat_map_singleton)

lemma filter_hru_links_lateralLoad:
  "distinct (constituents self) \<Longrightarrow> c0 \<in> set (constituents self) \<Longrightarrow>
   filter (\<lambda>l. to_node l = transport_node_of self c0 \<and> to_input l = ''lateralLoad'')
     (hru_links self rn h) =
     map (\<lambda>u. OWLink (gen_node_of self c0 u) ''totalLoad'' (transport_node_of self c0)
                ''lateralLoad'') (cgus_of self h)"
  by (simp add: hru_links_def filter_concat comp_def filter_con_links_lateralLoad
        concat_map_select)

lemma distinct_mapped_cgus:
  "distinct hs \<Longrightarrow> distinct (map fst (cgu_hrus self)) \<Longrightarrow>
     distinct (concat (map (cgus_of self) hs))"
proof (induction hs)
  case Nil
  then show ?case by simp
next
  case (Cons h hs)
  have "u \<notin> set (cgus_of self h')" if "u \<in> set (cgus_of self h)" "h' \<in> set hs" for u h'
  proof
    assume "u \<in> set (cgus_of self h')"
    with that(1) have "h = h'"
      using eq_key_imp_eq_value[OF Cons.prems(2), of u h h'] by (simp add: in_cgus_of)
    with that(2) Cons.prems(1) show False by simp
  qed
  then have "set (cgus_of self h) \<inter> set (concat (map (cgus_of self) hs)) = {}"
    by auto
  with Cons show ?case by (simp add: distinct_cgus_of)
qed

lemma set_mapped_cgus:
  "all_mapped self \<Longrightarrow>
     set (concat (map (cgus_of self) (hrus self))) = fst ` set (cgu_hrus self)"
proof (rule set_eqI)
  fix u
  assume m: "all_mapped self"
  show "u \<in> set (concat (map (cgus_of self) (hrus self))) \<longleftrightarrow> u \<in> fst ` set (cgu_hrus self)"
  proof
    assume "u \<in> set (concat (map (cgus_of self) (hrus self)))"
    then obtain h where "(u, h) \<in> set (cgu_hrus self)"
      by (auto simp: in_cgus_of)
    then show "u \<in> fst ` set (cgu_hrus self)"
      by force
  next
    assume "u \<in> fst ` set (cgu_hrus self)"
    then obtain h where uh: "(u, h) \<in> set (cgu_hrus self)"
      by auto
    then have "h \<in> set (hrus self)"
      using m by (force simp: all_mapped_def)
    with uh show "u \<in> set (concat (map (cgus_of self) (hrus self)))"
      by (auto simp: in_cgus_of)
  qed
qed

lemmas n_defs = n_Simhyd_def n_EmcDwc_def n_Muskingum_def n_LumpedConstituentRouting_def
  n_DepthToRate_def plain_model_def

lemma resolvable_plain:
  "call_attr (transport self) = None \<Longrightarrow> getitem_attr (transport self) = None \<Longrightarrow>
   call_attr (rr self) = None \<Longrightarrow> getitem_attr (rr self) = None \<Longrightarrow>
   call_attr (cg self) = None \<Longrightarrow> getitem_attr (cg self) = None \<Longrightarrow> resolvable self"
  by (simp add: resolvable_def model_for_def)

section \<open>The model resolver: claims C6 and C3\<close>

text \<open>
  Claim C6. For every provider and key tuple: if the provider is invocable, \<open>model_for\<close>
  returns the result of invoking it with all the keys supplied; otherwise, if the provider
  supports keyed lookup, it returns the provider indexed by the first key only; otherwise
  it returns the provider itself, unchanged.
\<close>

theorem model_for_resolves:
  "(call_attr provider = Some f \<longrightarrow> model_for provider args = f args) \<and>
   (call_attr provider = None \<and> getitem_attr provider = Some g \<longrightarrow>
      model_for provider (k # ks) = g k) \<and>
   (call_attr provider = None \<and> getitem_attr provider = None \<longrightarrow>
      model_for provider args = Inr provider)"
  by (simp add: model_for_def)

theorem model_for_resolves_witness:
  "model_for (function_provider (case_list (Inl IndexError) (\<lambda>k ks. Inr (plain_model k))))
     [''HRU'', ''x''] = Inr (plain_model ''HRU'') \<and>
   model_for (dict_provider (map_of [(''HRU'', n_Simhyd)])) [''HRU'', ''x''] = Inr n_Simhyd \<and>
   model_for n_Simhyd [''HRU'', ''x''] = Inr n_Simhyd"
proof -
  let ?f = "case_list (Inl IndexError) (\<lambda>k ks. Inr (plain_model k))"
  let ?g = "\<lambda>k. case map_of [(''HRU'', n_Simhyd)] k of
                   None \<Rightarrow> Inl (KeyError k) | Some v \<Rightarrow> Inr v"
  have "model_for (function_provider ?f) [''HRU'', ''x''] = ?f [''HRU'', ''x'']"
    using model_for_resolves[of "function_provider ?f" ?f "[''HRU'', ''x'']"]
    by (simp add: function_provider_def)
  moreover have
    "model_for (dict_provider (map_of [(''HRU'', n_Simhyd)])) [''HRU'', ''x''] = ?g ''HRU''"
    using model_for_resolves[of "dict_provider (map_of [(''HRU'', n_Simhyd)])" _ _ ?g "''HRU''" "[''x'']"]
    by (simp add: dict_provider_def)
  moreover have "model_for n_Simhyd [''HRU'', ''x''] = Inr n_Simhyd"
    using model_for_resolves[of n_Simhyd _ "[''HRU'', ''x'']"]
    by (simp add: n_Simhyd_def plain_model_def)
  ultimately show ?thesis by simp
qed

text \<open>
  Claim C3, as amended. \<open>model_for\<close> hands on the exception of the provider, whatever it
  is: when the provider is invocable and the call raises \<open>e\<close>, \<open>model_for\<close> raises
  \<open>e\<close>; when it is not invocable, supports keyed lookup and the lookup of the first key
  raises \<open>e\<close>, \<open>model_for\<close> raises \<open>e\<close>; a dictionary without the key raises
  \<open>KeyError\<close>. Nothing turns the exception into a \<open>ResolutionError\<close>.
\<close>

theorem model_for_propagates:
  "(call_attr provider = Some f \<and> f args = Inl e \<longrightarrow> model_for provider args = Inl e) \<and>
   (call_attr provider = None \<and> getitem_attr provider = Some g \<and> g k = Inl e \<longrightarrow>
      model_for provider (k # ks) = Inl e) \<and>
   (m k = None \<longrightarrow> model_for (dict_provider m) (k # ks) = Inl (KeyError k))"
  by (simp add: model_for_def dict_provider_def)

theorem model_for_propagates_witness:
  "model_for (function_provider (case_list (Inl IndexError) (\<lambda>k ks. Inr (plain_model k)))) []
     = Inl IndexError \<and>
   model_for (PyObj None None (Some (case_list (Inl TypeError) (\<lambda>c cs. Inl (KeyError (c # cs))))))
     [''HRU''] = Inl (KeyError ''HRU'') \<and>
   model_for (dict_provider (map_of [(''HRU'', n_Simhyd)])) [''H2'', ''x''] = Inl (KeyError ''H2'')"
proof -
  let ?f = "case_list (Inl IndexError) (\<lambda>k ks. Inr (plain_model k))"
  let ?g = "case_list (Inl TypeError) (\<lambda>c cs. Inl (KeyError (c # cs)))"
  have "model_for (function_provider ?f) [] = Inl IndexError"
    using model_for_propagates[of "function_provider ?f" ?f "[]" IndexError]
    by (simp add: function_provider_def)
  moreover have "model_for (PyObj None None (Some ?g)) [''HRU''] = Inl (KeyError ''HRU'')"
    using model_for_propagates[of "PyObj None None (Some ?g)" _ _ "KeyError ''HRU''" ?g "''HRU''" "[]"]
    by simp
  moreover have
    "model_for (dict_provider (map_of [(''HRU'', n_Simhyd)])) [''H2'', ''x''] = Inl (KeyError ''H2'')"
    using model_for_propagates[where m = "map_of [(''HRU'', n_Simhyd)]" and k = "''H2''" and ks = "[''x'']"]
    by simp
  ultimately show ?thesis by simp
qed

text \<open>
  Claim C3 as stated fails: a dictionary provider asked for a key it does not hold raises
  \<open>KeyError\<close>, which is not \<open>ResolutionError\<close>.
\<close>

theorem model_for_KeyError_counterexample:
  "model_for (dict_provider (map_of [(''HRU'', n_Simhyd)])) [''H2''] = Inl (KeyError ''H2'') \<and>
   model_for (dict_provider (map_of [(''HRU'', n_Simhyd)])) [''H2''] \<noteq> Inl ResolutionError"
  by (simp add: model_for_def dict_provider_def)

section \<open>The end-to-end scenario: claim C4\<close>

text \<open>
  Claim C4. For the descriptor with response units \<open>[H1]\<close>, source units
  \<open>{S1: H1}\<close> and constituents \<open>[N]\<close>, \<open>get_template\<close> returns the template whose
  nodes are exactly the routing node, the transport node of \<open>N\<close>, the runoff node of
  \<open>H1\<close>, the three area-scaling nodes of \<open>H1\<close> and the generation node of
  \<open>(N, S1)\<close>, and whose links are exactly the nine links listed. This holds whatever
  the four providers are, as long as they resolve.
\<close>

theorem get_template_scenario:
  assumes "hrus self = [''H1'']" and "cgu_hrus self = [(''S1'', ''H1'')]"
    and "constituents self = [''N'']" and "resolvable self"
  shows "get_template self =
    Inr \<lparr>nodes =
           [routing_node_of self, transport_node_of self ''N'', runoff_node_of self ''H1'',
            scale_node_of ''H1'' ''Runoff'', scale_node_of ''H1'' ''Quickflow'',
            scale_node_of ''H1'' ''Baseflow'', gen_node_of self ''N'' ''S1''],
         links =
           [OWLink (routing_node_of self) ''outflow'' (transport_node_of self ''N'') ''outflow'',
            OWLink (runoff_node_of self ''H1'') ''runoff'' (scale_node_of ''H1'' ''Runoff'') ''input'',
            OWLink (runoff_node_of self ''H1'') ''quickflow'' (scale_node_of ''H1'' ''Quickflow'') ''input'',
            OWLink (runoff_node_of self ''H1'') ''baseflow'' (scale_node_of ''H1'' ''Baseflow'') ''input'',
            OWLink (scale_node_of ''H1'' ''Runoff'') ''outflow'' (routing_node_of self) ''lateral'',
            OWLink (scale_node_of ''H1'' ''Runoff'') ''outflow'' (transport_node_of self ''N'') ''inflow'',
            OWLink (scale_node_of ''H1'' ''Quickflow'') ''outflow'' (gen_node_of self ''N'' ''S1'') ''quickflow'',
            OWLink (scale_node_of ''H1'' ''Baseflow'') ''outflow'' (gen_node_of self ''N'' ''S1'') ''baseflow'',
            OWLink (gen_node_of self ''N'' ''S1'') ''totalLoad'' (transport_node_of self ''N'') ''lateralLoad'']\<rparr>"
proof -
  from get_template_total[OF assms(4)] obtain t where t: "get_template self = Inr t"
    by blast
  have n: "node_seq self =
           [routing_node_of self, transport_node_of self ''N'', runoff_node_of self ''H1'',
            scale_node_of ''H1'' ''Runoff'', scale_node_of ''H1'' ''Quickflow'',
            scale_node_of ''H1'' ''Baseflow'', gen_node_of self ''N'' ''S1'']"
    by (simp add: node_seq_def hru_nodes_def con_nodes_def cgus_of_def assms)
  have "nodes t = node_seq self"
    by (rule get_template_nodes[OF t]) (simp_all add: assms)
  moreover have "links t = link_seq self"
    by (rule get_template_Inr(2)[OF t])
  ultimately have "t = \<lparr>nodes = node_seq self, links = link_seq self\<rparr>"
    by simp
  then show ?thesis
    unfolding t n
    by (simp add: link_seq_def hru_links_def con_links_def gen_links_def cgus_of_def assms)
qed

lemmas scenario_simps = scenario_def SemiLumpedCatchment_init_def

theorem get_template_scenario_witness:
  "hrus scenario = [''H1''] \<and> cgu_hrus scenario = [(''S1'', ''H1'')] \<and>
   constituents scenario = [''N''] \<and> resolvable scenario \<and>
   get_template scenario =
    Inr \<lparr>nodes =
           [OWNode n_Muskingum ''FlowRouting'' [],
            OWNode n_LumpedConstituentRouting ''ConstituentRouting'' [(''constituent'', ''N'')],
            OWNode n_Simhyd ''RR'' [(''hru'', ''H1'')],
            OWNode n_DepthToRate ''ArealScale'' [(''hru'', ''H1''), (''component'', ''Runoff'')],
            OWNode n_DepthToRate ''ArealScale'' [(''hru'', ''H1''), (''component'', ''Quickflow'')],
            OWNode n_DepthToRate ''ArealScale'' [(''hru'', ''H1''), (''component'', ''Baseflow'')],
            OWNode n_EmcDwc ''ConstituentGeneration'' [(''constituent'', ''N''), (''lu'', ''S1'')]],
         links =
           [OWLink (OWNode n_Muskingum ''FlowRouting'' []) ''outflow''
              (OWNode n_LumpedConstituentRouting ''ConstituentRouting'' [(''constituent'', ''N'')])
              ''outflow'',
            OWLink (OWNode n_Simhyd ''RR'' [(''hru'', ''H1'')]) ''runoff''
              (OWNode n_DepthToRate ''ArealScale'' [(''hru'', ''H1''), (''component'', ''Runoff'')])
              ''input'',
            OWLink (OWNode n_Simhyd ''RR'' [(''hru'', ''H1'')]) ''quickflow''
              (OWNode n_DepthToRate ''ArealScale'' [(''hru'', ''H1''), (''component'', ''Quickflow'')])
              ''input'',
            OWLink (OWNode n_Simhyd ''RR'' [(''hru'', ''H1'')]) ''baseflow''
              (OWNode n_DepthToRate ''ArealScale'' [(''hru'', ''H1''), (''component'', ''Baseflow'')])
              ''input'',
            OWLink
              (OWNode n_DepthToRate ''ArealScale'' [(''hru'', ''H1''), (''component'', ''Runoff'')])
              ''outflow'' (OWNode n_Muskingum ''FlowRouting'' []) ''lateral'',
            OWLink
              (OWNode n_DepthToRate ''ArealScale'' [(''hru'', ''H1''), (''component'', ''Runoff'')])
              ''outflow''
              (OWNode n_LumpedConstituentRouting ''ConstituentRouting'' [(''constituent'', ''N'')])
              ''inflow'',
            OWLink
              (OWNode n_DepthToRate ''ArealScale'' [(''hru'', ''H1''), (''component'', ''Quickflow'')])
              ''outflow''
              (OWNode n_EmcDwc ''ConstituentGeneration'' [(''constituent'', ''N''), (''lu'', ''S1'')])
              ''quickflow'',
            OWLink
              (OWNode n_DepthToRate ''ArealScale'' [(''hru'', ''H1''), (''component'', ''Baseflow'')])
              ''outflow''
              (OWNode n_EmcDwc ''ConstituentGeneration'' [(''constituent'', ''N''), (''lu'', ''S1'')])
              ''baseflow'',
            OWLink
              (OWNode n_EmcDwc ''ConstituentGeneration'' [(''constituent'', ''N''), (''lu'', ''S1'')])
              ''totalLoad''
              (OWNode n_LumpedConstituentRouting ''ConstituentRouting'' [(''constituent'', ''N'')])
              ''lateralLoad'']\<rparr>"
proof -
  have r: "resolvable scenario"
    by (rule resolvable_plain) (simp_all add: scenario_simps n_defs)
  have h: "hrus scenario = [''H1'']" "cgu_hrus scenario = [(''S1'', ''H1'')]"
    "constituents scenario = [''N'']"
    by (simp_all add: scenario_simps)
  have m: "routing scenario = n_Muskingum"
    "resolved (transport scenario) [''N''] = n_LumpedConstituentRouting"
    "resolved (rr scenario) [''H1''] = n_Simhyd"
    "resolved (cg scenario) [''N'', ''S1''] = n_EmcDwc"
    by (simp_all add: scenario_simps resolved_def model_for_def n_defs)
  show ?thesis
    using get_template_scenario[OF h r] r h
    by (simp add: node_defs m)
qed

section \<open>The number of nodes: claim C1\<close>

lemma filter_all_mapped:
  "all_mapped self \<Longrightarrow>
     filter (\<lambda>(u, h). h \<in> set (hrus self)) (cgu_hrus self) = cgu_hrus self"
  by (rule iffD2[OF filter_id_conv]) (force simp: all_mapped_def)

text \<open>
  Claim C1, as amended. For every descriptor whose providers resolve, whose response units
  and constituents are each listed once, and whose source units are all mapped onto
  response units of the descriptor, \<open>get_template\<close> returns a template with exactly
  \<open>1 + C + R * (1 + 3) + C * S\<close> nodes, where \<open>R\<close>, \<open>C\<close> and \<open>S\<close> count the response
  units, the constituents and the source units of the mapping: one routing node, one
  transport node per constituent, one runoff node and three area-scaling nodes per response
  unit, and one generation node per pair of a constituent and a source unit.
\<close>

theorem get_template_node_count:
  assumes "resolvable self" and "distinct (hrus self)" and "distinct (constituents self)"
    and "distinct (map fst (cgu_hrus self))" and "all_mapped self"
  shows "\<exists>t. get_template self = Inr t \<and>
           length (nodes t) =
             1 + length (constituents self) + length (hrus self) * (1 + 3) +
             length (constituents self) * length (cgu_hrus self)"
proof -
  from get_template_total[OF assms(1)] obtain t where t: "get_template self = Inr t"
    by blast
  have "nodes t = node_seq self"
    by (rule get_template_nodes[OF t assms(2-4)])
  then have "length (nodes t) =
             1 + length (constituents self) + length (hrus self) * (1 + 3) +
             length (constituents self) * length (cgu_hrus self)"
    by (simp only: length_node_seq[OF assms(2)] filter_all_mapped[OF assms(5)])
  with t show ?thesis by blast
qed

lemmas example_simps = example_catchment_def SemiLumpedCatchment_init_def

theorem get_template_node_count_witness:
  "resolvable example_catchment \<and> distinct (hrus example_catchment) \<and>
   distinct (constituents example_catchment) \<and>
   distinct (map fst (cgu_hrus example_catchment)) \<and> all_mapped example_catchment \<and>
   (\<exists>t. get_template example_catchment = Inr t \<and> length (nodes t) = 17)"
proof -
  have r: "resolvable example_catchment"
    by (rule resolvable_plain) (simp_all add: example_simps n_defs)
  have d: "distinct (hrus example_catchment)" "distinct (constituents example_catchment)"
    "distinct (map fst (cgu_hrus example_catchment))"
    by (simp_all add: example_simps)
  have m: "all_mapped example_catchment"
    by (simp add: all_mapped_def example_simps)
  have "1 + length (constituents example_catchment) + length (hrus example_catchment) * (1 + 3) +
        length (constituents example_catchment) * length (cgu_hrus example_catchment) = 17"
    by (simp add: example_simps)
  with get_template_node_count[OF r d m] r d m show ?thesis
    by simp
qed

text \<open>
  Claim C1 as stated, with one generation node per source unit, fails as soon as there are
  two constituents: the default catchment with constituents \<open>[N, P]\<close> gets nine nodes,
  where the stated formula gives eight.
\<close>

lemmas eval_simps = get_template_def add_node_def add_link_def OWTemplate_init_def
  model_for_def cgus_of_def Let_def

theorem node_count_counterexample:
  "all_mapped two_constituents \<and>
   node_count (get_template two_constituents) = Some 9 \<and>
   1 + length (constituents two_constituents) + length (hrus two_constituents) * (1 + 3) +
     length (cgu_hrus two_constituents) = 8"
  by (simp add: all_mapped_def node_count_def two_constituents_def SemiLumpedCatchment_init_def
        eval_simps n_defs)

section \<open>Port aggregation: claim C7\<close>

text \<open>
  Claim C7. For every descriptor whose source units are all mapped onto response units of
  the descriptor (providers resolving, response units and constituents each listed once),
  in the template \<open>get_template\<close> returns: the links into the \<open>lateral\<close> port of the
  routing node are one per response unit, each from the runoff-scaling node of that unit;
  for each constituent, the links into the \<open>inflow\<close> port of its transport node are one
  per response unit; and the links into the \<open>lateralLoad\<close> port of its transport node
  are one per source unit, each from the generation node of that constituent and source
  unit. The source units are enumerated response unit by response unit; the enumeration
  has no repetition and covers exactly the keys of the mapping.
\<close>

theorem port_aggregation:
  assumes "resolvable self" and "distinct (hrus self)"
    and "distinct (constituents self)" and "distinct (map fst (cgu_hrus self))"
    and "all_mapped self"
  shows
    "\<exists>t. get_template self = Inr t \<and>
     filter (\<lambda>l. to_node l = routing_node_of self \<and> to_input l = ''lateral'') (links t) =
       map (\<lambda>h. OWLink (scale_node_of h ''Runoff'') ''outflow'' (routing_node_of self) ''lateral'')
         (hrus self) \<and>
     (\<forall>con\<in>set (constituents self).
        filter (\<lambda>l. to_node l = transport_node_of self con \<and> to_input l = ''inflow'') (links t) =
          map (\<lambda>h. OWLink (scale_node_of h ''Runoff'') ''outflow'' (transport_node_of self con)
                     ''inflow'') (hrus self) \<and>
        filter (\<lambda>l. to_node l = transport_node_of self con \<and> to_input l = ''lateralLoad'')
            (links t) =
          map (\<lambda>u. OWLink (gen_node_of self con u) ''totalLoad'' (transport_node_of self con)
                     ''lateralLoad'') (concat (map (cgus_of self) (hrus self)))) \<and>
     distinct (concat (map (cgus_of self) (hrus self))) \<and>
     set (concat (map (cgus_of self) (hrus self))) = fst ` set (cgu_hrus self)"
proof -
  from get_template_total[OF assms(1)] obtain t where t: "get_template self = Inr t"
    by blast
  have l: "links t = link_seq self"
    by (rule get_template_Inr(2)[OF t])
  have 1: "filter (\<lambda>l. to_node l = routing_node_of self \<and> to_input l = ''lateral'') (links t) =
       map (\<lambda>h. OWLink (scale_node_of h ''Runoff'') ''outflow'' (routing_node_of self) ''lateral'')
         (hrus self)"
    by (simp add: l link_seq_def filter_concat comp_def filter_hru_links_lateral
          concat_map_singleton filter_map)
  have 2: "filter (\<lambda>l. to_node l = transport_node_of self con \<and> to_input l = ''inflow'') (links t) =
          map (\<lambda>h. OWLink (scale_node_of h ''Runoff'') ''outflow'' (transport_node_of self con)
                     ''inflow'') (hrus self)"
    if "con \<in> set (constituents self)" for con
    using that assms(3)
    by (simp add: l link_seq_def filter_concat comp_def filter_hru_links_inflow
          concat_map_singleton filter_map)
  have 3: "filter (\<lambda>l. to_node l = transport_node_of self con \<and> to_input l = ''lateralLoad'')
            (links t) =
          map (\<lambda>u. OWLink (gen_node_of self con u) ''totalLoad'' (transport_node_of self con)
                     ''lateralLoad'') (concat (map (cgus_of self) (hrus self)))"
    if "con \<in> set (constituents self)" for con
    using that assms(3)
    by (simp add: l link_seq_def filter_concat comp_def filter_hru_links_lateralLoad
          filter_map map_concat)
  show ?thesis
    using t 1 2 3 distinct_mapped_cgus[OF assms(2,4)] set_mapped_cgus[OF assms(5)]
    by blast
qed

theorem port_aggregation_witness:
  "resolvable example_catchment \<and> distinct (hrus example_catchment) \<and>
   distinct (constituents example_catchment) \<and>
   distinct (map fst (cgu_hrus example_catchment)) \<and> all_mapped example_catchment \<and>
   (\<exists>t. get_template example_catchment = Inr t \<and>
     length (filter (\<lambda>l. to_node l = routing_node_of example_catchment \<and>
                          to_input l = ''lateral'') (links t)) = 2 \<and>
     length (filter (\<lambda>l. to_node l = transport_node_of example_catchment ''P'' \<and>
                          to_input l = ''inflow'') (links t)) = 2 \<and>
     map from_node
       (filter (\<lambda>l. to_node l = transport_node_of example_catchment ''P'' \<and>
                     to_input l = ''lateralLoad'') (links t)) =
       [gen_node_of example_catchment ''P'' ''S1'', gen_node_of example_catchment ''P'' ''S2'',
        gen_node_of example_catchment ''P'' ''S3''])"
proof -
  have r: "resolvable example_catchment"
    by (rule resolvable_plain) (simp_all add: example_simps n_defs)
  have d: "distinct (hrus example_catchment)" "distinct (constituents example_catchment)"
    "distinct (map fst (cgu_hrus example_catchment))"
    by (simp_all add: example_simps)
  have m: "all_mapped example_catchment"
    by (simp add: all_mapped_def example_simps)
  have c: "''P'' \<in> set (constituents example_catchment)"
    "hrus example_catchment = [''H1'', ''H2'']"
    "cgus_of example_catchment ''H1'' = [''S1'', ''S2'']"
    "cgus_of example_catchment ''H2'' = [''S3'']"
    by (simp_all add: example_simps cgus_of_def)
  have "\<exists>t. get_template example_catchment = Inr t \<and>
     length (filter (\<lambda>l. to_node l = routing_node_of example_catchment \<and>
                          to_input l = ''lateral'') (links t)) = 2 \<and>
     length (filter (\<lambda>l. to_node l = transport_node_of example_catchment ''P'' \<and>
                          to_input l = ''inflow'') (links t)) = 2 \<and>
     map from_node
       (filter (\<lambda>l. to_node l = transport_node_of example_catchment ''P'' \<and>
                     to_input l = ''lateralLoad'') (links t)) =
       [gen_node_of example_catchment ''P'' ''S1'', gen_node_of example_catchment ''P'' ''S2'',
        gen_node_of example_catchment ''P'' ''S3'']"
    using port_aggregation[OF r d m]
    apply (elim exE conjE)
    subgoal for t
      apply (rule exI[of _ t])
      apply (drule bspec[of _ _ "''P''"])
       apply (rule c(1))
      apply (simp add: c(2-4))
      done
    done
  with r d m show ?thesis
    by simp
qed

section \<open>What the builder reads of the descriptor\<close>

lemma transport_loop_resolves:
  "transport_loop self rn cons t td = Inr r \<Longrightarrow> c \<in> set cons \<Longrightarrow>
     \<not> isl (model_for (transport self) [c])"
  by (induction cons arbitrary: t td) (auto split: sum.splits simp: tsimps)

lemma con_loop_resolves:
  "con_loop self hru td rs q b cons t = Inr t' \<Longrightarrow> c \<in> set cons \<Longrightarrow>
   u \<in> set (cgus_of self hru) \<Longrightarrow> \<not> isl (model_for (cg self) [c, u])"
proof (induction cons arbitrary: t)
  case Nil
  then show ?case by simp
next
  case (Cons a cons)
  from Cons.prems(1) obtain tn t1 where
    "cgu_loop self a q b tn (cgus_of self hru)
       (add_link t (OWLink rs ''outflow'' tn ''inflow'')) = Inr t1"
    and rest: "con_loop self hru td rs q b cons t1 = Inr t'"
    by (auto simp: Let_def split: option.splits sum.splits)
  from cgu_loop_resolves[OF this(1) Cons.prems(3)] Cons.IH[OF rest _ Cons.prems(3)] Cons.prems(2)
  show ?case by auto
qed

lemma hru_loop_resolves:
  "hru_loop self rn td hs t = Inr t' \<Longrightarrow> h \<in> set hs \<Longrightarrow>
     \<not> isl (model_for (rr self) [h]) \<and>
     (\<forall>c\<in>set (constituents self). \<forall>u\<in>set (cgus_of self h).
        \<not> isl (model_for (cg self) [c, u]))"
proof (induction hs arbitrary: t)
  case Nil
  then show ?case by simp
next
  case (Cons a hs)
  from Cons.prems(1) obtain m where m: "model_for (rr self) [a] = Inr m"
    by (auto split: sum.splits)
  from Cons.prems(1) obtain rs q b t8 t9 where
    c: "con_loop self a td rs q b (constituents self) t8 = Inr t9" and
    rest: "hru_loop self rn td hs t9 = Inr t'"
    by (auto simp: m tsimps split: sum.splits)
  show ?case
  proof (cases "h = a")
    case True
    then show ?thesis
      using m con_loop_resolves[OF c] by auto
  next
    case False
    with Cons.prems(2) have "h \<in> set hs" by simp
    from Cons.IH[OF rest this] show ?thesis .
  qed
qed

lemma get_template_resolvable:
  assumes "get_template self = Inr t"
  shows "resolvable self"
proof -
  from assms obtain rn t1 t2 td where
    tl: "transport_loop self rn (constituents self) t1 Map.empty = Inr (t2, td)" and
    hl: "hru_loop self rn td (hrus self) t2 = Inr t"
    by (auto simp: get_template_def tsimps split: sum.splits)
  show ?thesis
    unfolding resolvable_def
    using transport_loop_resolves[OF tl] hru_loop_resolves[OF hl]
    by blast
qed

lemma cgu_loop_cong:
  "cg self = cg self' \<Longrightarrow>
     cgu_loop self con q b tn cs t = cgu_loop self' con q b tn cs t"
  by (induction cs arbitrary: t) (simp_all split: sum.splits)

lemma con_loop_cong:
  "cg self = cg self' \<Longrightarrow> cgus_of self hru = cgus_of self' hru \<Longrightarrow>
     con_loop self hru td rs q b cons t = con_loop self' hru td rs q b cons t"
proof (induction cons arbitrary: t)
  case Nil
  then show ?case by simp
next
  case (Cons c cons)
  then show ?case
    by (simp add: cgu_loop_cong[of self self'] split: option.splits sum.splits)
qed

lemma hru_loop_cong:
  "rr self = rr self' \<Longrightarrow> cg self = cg self' \<Longrightarrow>
   constituents self = constituents self' \<Longrightarrow>
   (\<forall>h\<in>set hs. cgus_of self h = cgus_of self' h) \<Longrightarrow>
     hru_loop self rn td hs t = hru_loop self' rn td hs t"
proof (induction hs arbitrary: t)
  case Nil
  then show ?case by simp
next
  case (Cons h hs)
  from Cons.prems have c: "\<And>rs q b t. con_loop self h td rs q b (constituents self') t =
      con_loop self' h td rs q b (constituents self') t"
    by (intro con_loop_cong) simp_all
  from Cons have ih: "\<And>t. hru_loop self rn td hs t = hru_loop self' rn td hs t"
    by simp
  show ?case
    by (simp only: hru_loop.simps Let_def split_beta Cons.prems(1,3) c ih cong: sum.case_cong)
qed

lemma transport_loop_cong:
  "transport self = transport self' \<Longrightarrow>
     transport_loop self rn cons t td = transport_loop self' rn cons t td"
  by (induction cons arbitrary: t td) (simp_all split: sum.splits)

lemma get_template_cong:
  assumes "routing self = routing self'" "transport self = transport self'"
    "rr self = rr self'" "cg self = cg self'" "constituents self = constituents self'"
    "hrus self = hrus self'" "\<forall>h\<in>set (hrus self). cgus_of self h = cgus_of self' h"
  shows "get_template self = get_template self'"
proof -
  have "\<And>rn td t. hru_loop self rn td (hrus self') t = hru_loop self' rn td (hrus self') t"
    using assms by (intro hru_loop_cong) simp_all
  then show ?thesis
    using assms(1,2,5,6)
    by (simp add: get_template_def transport_loop_cong[of self self'] split_beta
          cong: sum.case_cong)
qed

section \<open>A dangling mapping: claim C2\<close>

lemma cgus_of_drop_dangling:
  "h \<in> set (hrus self) \<Longrightarrow> cgus_of (drop_dangling self) h = cgus_of self h"
proof -
  assume h: "h \<in> set (hrus self)"
  have "filter (\<lambda>(u, h'). h' = h) (filter (\<lambda>(u, h'). h' \<in> set (hrus self)) (cgu_hrus self)) =
        filter (\<lambda>(u, h'). h' = h) (cgu_hrus self)"
    unfolding filter_filter
    by (rule filter_cong) (use h in auto)
  then show ?thesis
    by (simp add: cgus_of_def drop_dangling_def)
qed

text \<open>
  Claim C2, as amended. \<open>get_template\<close> does not check the mapping: an entry whose
  response unit is not a response unit of the descriptor is skipped, so the result is the
  result for the descriptor without such entries, and with providers that resolve it is a
  template, not an error.
\<close>

theorem dangling_mapping_ignored:
  "get_template self = get_template (drop_dangling self) \<and>
   (resolvable self \<longrightarrow> (\<exists>t. get_template self = Inr t))"
proof
  show "get_template self = get_template (drop_dangling self)"
    by (rule get_template_cong) (simp_all add: cgus_of_drop_dangling, simp_all add: drop_dangling_def)
  show "resolvable self \<longrightarrow> (\<exists>t. get_template self = Inr t)"
    by (simp add: get_template_total)
qed

lemmas dangling_simps = dangling_catchment_def SemiLumpedCatchment_init_def

theorem dangling_mapping_ignored_witness:
  "resolvable dangling_catchment \<and> \<not> all_mapped dangling_catchment \<and>
   cgu_hrus (drop_dangling dangling_catchment) = [] \<and>
   get_template dangling_catchment = get_template (drop_dangling dangling_catchment) \<and>
   (\<exists>t. get_template dangling_catchment = Inr t)"
proof -
  have r: "resolvable dangling_catchment"
    by (rule resolvable_plain) (simp_all add: dangling_simps n_defs)
  have "\<not> all_mapped dangling_catchment" "cgu_hrus (drop_dangling dangling_catchment) = []"
    by (simp_all add: all_mapped_def drop_dangling_def dangling_simps)
  with r dangling_mapping_ignored[of dangling_catchment] show ?thesis
    by blast
qed

text \<open>
  Claim C2 as stated fails: with \<open>S1\<close> mapped onto \<open>X\<close> and response units \<open>[H1]\<close>,
  \<open>get_template\<close> raises no \<open>StructureError\<close> and returns a template of six nodes,
  none of them for \<open>S1\<close>.
\<close>

theorem dangling_mapping_counterexample:
  "\<not> all_mapped dangling_catchment \<and>
   get_template dangling_catchment \<noteq> Inl StructureError \<and>
   node_count (get_template dangling_catchment) = Some 6"
  by (simp add: all_mapped_def node_count_def dangling_simps eval_simps n_defs)

section \<open>The declared source units are not read: claim C10\<close>

lemma set_nodes_get_template:
  "get_template self = Inr t \<Longrightarrow> set (nodes t) = set (node_seq self)"
  by (simp add: get_template_Inr(1) set_add_nodes)

lemma in_node_seq:
  "nd \<in> set (node_seq self) \<longleftrightarrow>
     nd = routing_node_of self \<or> nd \<in> transport_node_of self ` set (constituents self) \<or>
     (\<exists>h\<in>set (hrus self). nd \<in> set (hru_nodes self h))"
  by (auto simp: node_seq_def)

lemma process_simps:
  "process (routing_node_of self) = ''FlowRouting''"
  "process (transport_node_of self c) = ''ConstituentRouting''"
  "process (runoff_node_of self h) = ''RR''"
  "process (scale_node_of h k) = ''ArealScale''"
  "process (gen_node_of self c u) = ''ConstituentGeneration''"
  by (simp_all add: node_defs)

lemma params_simps:
  "params (routing_node_of self) = []"
  "params (transport_node_of self c) = [(''constituent'', c)]"
  "params (runoff_node_of self h) = [(''hru'', h)]"
  "params (scale_node_of h k) = [(''hru'', h), (''component'', k)]"
  "params (gen_node_of self c u) = [(''constituent'', c), (''lu'', u)]"
  by (simp_all add: node_defs)

lemma node_seq_cases:
  assumes "nd \<in> set (node_seq self)"
  obtains "nd = routing_node_of self"
  | c where "c \<in> set (constituents self)" "nd = transport_node_of self c"
  | h where "h \<in> set (hrus self)" "nd = runoff_node_of self h"
  | h k where "h \<in> set (hrus self)" "nd = scale_node_of h k"
  | h c u where "h \<in> set (hrus self)" "c \<in> set (constituents self)"
      "(u, h) \<in> set (cgu_hrus self)" "nd = gen_node_of self c u"
proof -
  from assms consider "nd = routing_node_of self"
    | "nd \<in> transport_node_of self ` set (constituents self)"
    | h where "h \<in> set (hrus self)" "nd \<in> set (hru_nodes self h)"
    unfolding in_node_seq by blast
  then show ?thesis
  proof cases
    case 1
    then show ?thesis by (rule that(1))
  next
    case 2
    then show ?thesis using that(2) by blast
  next
    case 3
    from 3(2) consider "nd = runoff_node_of self h" | "nd = scale_node_of h ''Runoff''"
      | "nd = scale_node_of h ''Quickflow''" | "nd = scale_node_of h ''Baseflow''"
      | c u where "c \<in> set (constituents self)" "(u, h) \<in> set (cgu_hrus self)"
          "nd = gen_node_of self c u"
      unfolding in_hru_nodes by blast
    then show ?thesis
      using that(3-5) 3(1) by cases blast+
  qed
qed

lemma gen_node_in_node_seq:
  "c \<in> set (constituents self) \<Longrightarrow> (u, h) \<in> set (cgu_hrus self) \<Longrightarrow> h \<in> set (hrus self) \<Longrightarrow>
     gen_node_of self c u \<in> set (node_seq self)"
  unfolding in_node_seq in_hru_nodes by blast

lemma generation_nodes:
  assumes "get_template self = Inr t"
  shows "{nd \<in> set (nodes t). process nd = ''ConstituentGeneration''} =
       {gen_node_of self con u | con u h.
          con \<in> set (constituents self) \<and> (u, h) \<in> set (cgu_hrus self) \<and>
          h \<in> set (hrus self)}"
    (is "?L = ?R")
proof (rule set_eqI)
  fix nd
  show "nd \<in> ?L \<longleftrightarrow> nd \<in> ?R"
  proof
    assume "nd \<in> ?L"
    then have n: "nd \<in> set (node_seq self)" and p: "process nd = ''ConstituentGeneration''"
      by (simp_all add: set_nodes_get_template[OF assms])
    from n show "nd \<in> ?R"
    proof (cases rule: node_seq_cases)
      case (5 h c u)
      then show ?thesis by blast
    qed (use p in \<open>simp_all add: process_simps\<close>)
  next
    assume "nd \<in> ?R"
    then obtain c u h where "c \<in> set (constituents self)" "(u, h) \<in> set (cgu_hrus self)"
      "h \<in> set (hrus self)" "nd = gen_node_of self c u"
      by blast
    then show "nd \<in> ?L"
      by (simp add: set_nodes_get_template[OF assms] gen_node_in_node_seq process_simps)
  qed
qed

lemma lu_nodes:
  assumes "get_template self = Inr t" "nd \<in> set (nodes t)" "(''lu'', u) \<in> set (params nd)"
  shows "u \<in> fst ` set (cgu_hrus self)"
proof -
  from assms(1,2) have "nd \<in> set (node_seq self)"
    by (simp add: set_nodes_get_template)
  then show ?thesis
  proof (cases rule: node_seq_cases)
    case (5 h c u')
    with assms(3) have "u' = u" by (simp add: params_simps)
    with 5(3) show ?thesis by force
  qed (use assms(3) in \<open>simp_all add: params_simps\<close>)
qed

text \<open>
  Claim C10. The template depends on the mapping \<open>cgu_hrus\<close> and never on the list
  \<open>cgus\<close>: changing \<open>cgus\<close> alone leaves the result of \<open>get_template\<close> as it is; the
  generation nodes of a returned template are exactly those of the keys of the mapping
  whose value is a response unit of the descriptor, one for each constituent; and no node
  is tagged with a source unit that is not a key of the mapping, whether or not \<open>cgus\<close>
  lists it.
\<close>

theorem cgus_list_ignored:
  "get_template (self\<lparr>cgus := cs\<rparr>) = get_template self \<and>
   (get_template self = Inr t \<longrightarrow>
      {nd \<in> set (nodes t). process nd = ''ConstituentGeneration''} =
        {gen_node_of self con u | con u h.
           con \<in> set (constituents self) \<and> (u, h) \<in> set (cgu_hrus self) \<and>
           h \<in> set (hrus self)} \<and>
      (\<forall>u. u \<notin> fst ` set (cgu_hrus self) \<longrightarrow>
         (\<forall>nd\<in>set (nodes t). (''lu'', u) \<notin> set (params nd))))"
proof (intro conjI impI allI ballI)
  show "get_template (self\<lparr>cgus := cs\<rparr>) = get_template self"
    by (rule get_template_cong) (simp_all add: cgus_of_def)
next
  assume "get_template self = Inr t"
  then show "{nd \<in> set (nodes t). process nd = ''ConstituentGeneration''} =
        {gen_node_of self con u | con u h.
           con \<in> set (constituents self) \<and> (u, h) \<in> set (cgu_hrus self) \<and>
           h \<in> set (hrus self)}"
    by (rule generation_nodes)
next
  fix u nd
  assume "get_template self = Inr t" "u \<notin> fst ` set (cgu_hrus self)" "nd \<in> set (nodes t)"
  then show "(''lu'', u) \<notin> set (params nd)"
    using lu_nodes by blast
qed

theorem cgus_list_ignored_witness:
  "get_template (example_catchment\<lparr>cgus := [''S1'', ''S9'']\<rparr>) = get_template example_catchment \<and>
   ''S9'' \<notin> fst ` set (cgu_hrus example_catchment) \<and>
   (\<exists>t. get_template example_catchment = Inr t \<and>
      {nd \<in> set (nodes t). process nd = ''ConstituentGeneration''} =
        {gen_node_of example_catchment con u | con u h.
           con \<in> set (constituents example_catchment) \<and>
           (u, h) \<in> set (cgu_hrus example_catchment) \<and> h \<in> set (hrus example_catchment)} \<and>
      (\<forall>nd\<in>set (nodes t). (''lu'', ''S9'') \<notin> set (params nd)))"
proof -
  have r: "resolvable example_catchment"
    by (rule resolvable_plain) (simp_all add: example_simps n_defs)
  from get_template_total[OF r] obtain t where t: "get_template example_catchment = Inr t"
    by blast
  have s: "''S9'' \<notin> fst ` set (cgu_hrus example_catchment)"
    by (simp add: example_simps)
  note th = cgus_list_ignored[where self = example_catchment and cs = "[''S1'', ''S9'']" and t = t]
  note a = th[THEN conjunct1]
  note b = th[THEN conjunct2, THEN mp, OF t]
  note b1 = b[THEN conjunct1]
  note b2 = b[THEN conjunct2, THEN spec, THEN mp, OF s]
  show ?thesis
    by (rule conjI[OF a], rule conjI[OF s], rule exI[of _ t], rule conjI[OF t], rule conjI[OF b1 b2])
qed

section \<open>Determinism: claim C8\<close>

lemma set_con_links:
  "set (con_links self h rs q b c) =
     insert (OWLink rs ''outflow'' (transport_node_of self c) ''inflow'')
       (\<Union>u\<in>set (cgus_of self h). set (gen_links self c q b (transport_node_of self c) u))"
  by (simp add: con_links_def)

lemma set_hru_links:
  "set (hru_links self rn h) =
     {OWLink (runoff_node_of self h) ''runoff'' (scale_node_of h ''Runoff'') ''input'',
      OWLink (runoff_node_of self h) ''quickflow'' (scale_node_of h ''Quickflow'') ''input'',
      OWLink (runoff_node_of self h) ''baseflow'' (scale_node_of h ''Baseflow'') ''input'',
      OWLink (scale_node_of h ''Runoff'') ''outflow'' rn ''lateral''} \<union>
     (\<Union>c\<in>set (constituents self).
        set (con_links self h (scale_node_of h ''Runoff'') (scale_node_of h ''Quickflow'')
               (scale_node_of h ''Baseflow'') c))"
  by (simp add: hru_links_def)

lemma set_link_seq:
  "set (link_seq self) =
     (\<lambda>con. OWLink (routing_node_of self) ''outflow'' (transport_node_of self con) ''outflow'') `
       set (constituents self) \<union>
     (\<Union>h\<in>set (hrus self). set (hru_links self (routing_node_of self) h))"
  by (simp add: link_seq_def)

lemma same_descriptor_nodes:
  assumes "same_descriptor d1 d2"
  shows "routing_node_of d1 = routing_node_of d2" "transport_node_of d1 = transport_node_of d2"
    "runoff_node_of d1 = runoff_node_of d2" "gen_node_of d1 = gen_node_of d2"
    "gen_links d1 = gen_links d2"
  using assms
  by (simp_all add: same_descriptor_def fun_eq_iff node_defs gen_links_def)

lemma same_descriptor_cgus_of:
  "same_descriptor d1 d2 \<Longrightarrow> set (cgus_of d1 h) = set (cgus_of d2 h)"
  by (rule set_eqI) (simp add: in_cgus_of same_descriptor_def)

lemma same_descriptor_resolvable:
  "same_descriptor d1 d2 \<Longrightarrow> resolvable d1 \<Longrightarrow> resolvable d2"
  unfolding resolvable_def
  using same_descriptor_cgus_of[of d1 d2]
  by (simp add: same_descriptor_def)

lemma same_descriptor_node_seq:
  assumes "same_descriptor d1 d2"
  shows "set (node_seq d1) = set (node_seq d2)"
proof (rule set_eqI)
  fix nd
  from assms have e: "hrus d1 = hrus d2" "constituents d1 = constituents d2"
    "set (cgu_hrus d1) = set (cgu_hrus d2)"
    by (simp_all add: same_descriptor_def)
  show "nd \<in> set (node_seq d1) \<longleftrightarrow> nd \<in> set (node_seq d2)"
    by (simp only: in_node_seq in_hru_nodes same_descriptor_nodes[OF assms] e)
qed

lemma same_descriptor_link_seq:
  assumes "same_descriptor d1 d2"
  shows "set (link_seq d1) = set (link_seq d2)"
proof -
  from assms have e: "hrus d1 = hrus d2" "constituents d1 = constituents d2"
    by (simp_all add: same_descriptor_def)
  show ?thesis
    by (simp only: set_link_seq set_hru_links set_con_links same_descriptor_nodes[OF assms] e
          same_descriptor_cgus_of[OF assms])
qed

text \<open>
  Claim C8. \<open>get_template\<close> on two equal descriptors yields templates with the same
  node identities and the same links, compared as sets: when the call on one returns a
  template, so does the call on the other, and the two have the same set of nodes (model,
  role, parameters) and the same set of links. Equal descriptors may hold the entries of
  \<open>cgu_hrus\<close> in different orders, and then the two templates list their nodes and
  links in different orders.
\<close>

theorem get_template_deterministic:
  assumes "same_descriptor d1 d2" and "get_template d1 = Inr t1"
  shows "\<exists>t2. get_template d2 = Inr t2 \<and> set (nodes t1) = set (nodes t2) \<and>
               set (links t1) = set (links t2)"
proof -
  have "resolvable d2"
    using same_descriptor_resolvable[OF assms(1)] get_template_resolvable[OF assms(2)] .
  from get_template_total[OF this] obtain t2 where t2: "get_template d2 = Inr t2"
    by blast
  have "set (nodes t1) = set (nodes t2)"
    by (simp only: set_nodes_get_template[OF assms(2)] set_nodes_get_template[OF t2]
          same_descriptor_node_seq[OF assms(1)])
  moreover have "set (links t1) = set (links t2)"
    by (simp only: get_template_Inr(2)[OF assms(2)] get_template_Inr(2)[OF t2]
          same_descriptor_link_seq[OF assms(1)])
  ultimately show ?thesis
    using t2 by blast
qed

theorem get_template_deterministic_witness:
  "same_descriptor example_catchment example_reordered \<and>
   cgu_hrus example_catchment \<noteq> cgu_hrus example_reordered \<and>
   (\<exists>t1 t2. get_template example_catchment = Inr t1 \<and> get_template example_reordered = Inr t2 \<and>
      set (nodes t1) = set (nodes t2) \<and> set (links t1) = set (links t2))"
proof -
  have s: "same_descriptor example_catchment example_reordered"
    by (simp add: same_descriptor_def example_reordered_def example_simps insert_commute)
  have n: "cgu_hrus example_catchment \<noteq> cgu_hrus example_reordered"
    by (simp add: example_reordered_def example_simps)
  have r: "resolvable example_catchment"
    by (rule resolvable_plain) (simp_all add: example_simps n_defs)
  from get_template_total[OF r] obtain t1 where t1: "get_template example_catchment = Inr t1"
    by blast
  from get_template_deterministic[OF s t1] obtain t2 where
    "get_template example_reordered = Inr t2" "set (nodes t1) = set (nodes t2)"
    "set (links t1) = set (links t2)"
    by blast
  with t1 have "\<exists>t1 t2. get_template example_catchment = Inr t1 \<and>
      get_template example_reordered = Inr t2 \<and>
      set (nodes t1) = set (nodes t2) \<and> set (links t1) = set (links t2)"
    by blast
  with s n show ?thesis
    by (intro conjI)
qed

section \<open>The format operator and the linker loop\<close>

lemma format_from_plain:
  "c \<noteq> CHR ''%'' \<Longrightarrow>
     format_from (c # fmt) arg =
       (case format_from fmt arg of Inl e \<Rightarrow> Inl e | Inr r \<Rightarrow> Inr (c # r))"
  by (cases fmt) (auto split: list.splits)

lemma format_from_plain_append:
  "percent_free s \<Longrightarrow>
     format_from (s @ fmt) arg =
       (case format_from fmt arg of Inl e \<Rightarrow> Inl e | Inr r \<Rightarrow> Inr (s @ r))"
proof (induction s)
  case Nil
  then show ?case by (simp split: sum.splits)
next
  case (Cons c s)
  then have "c \<noteq> CHR ''%''" "percent_free s"
    by (auto simp: percent_free_def)
  with Cons.IH show ?case
    by (simp add: format_from_plain del: format_from.simps split: sum.splits)
qed

lemma format_from_percent_d:
  "format_from (CHR ''%'' # CHR ''d'' # fmt) (PyInt i # rest) =
     (case format_from fmt rest of Inl e \<Rightarrow> Inl e | Inr r \<Rightarrow> Inr (str_int i @ r))"
  "format_from (CHR ''%'' # CHR ''d'' # fmt) (PyStr s # rest) = Inl TypeError"
  "format_from (CHR ''%'' # CHR ''d'' # fmt) (PyNone # rest) = Inl TypeError"
  "format_from (CHR ''%'' # CHR ''d'' # fmt) (PyTuple vs # rest) = Inl TypeError"
  "format_from (CHR ''%'' # CHR ''d'' # fmt) [] = Inl TypeError"
  by (simp_all add: beyond_fragment_def)

lemma format_from_percent_s:
  "format_from (CHR ''%'' # CHR ''s'' # fmt) (PyStr s # rest) =
     (case format_from fmt rest of Inl e \<Rightarrow> Inl e | Inr r \<Rightarrow> Inr (s @ r))"
  by (simp add: beyond_fragment_def py_str_def)

lemma format_from_percent_percent:
  "format_from (CHR ''%'' # CHR ''%'' # fmt) arg =
     (case format_from fmt arg of Inl e \<Rightarrow> Inl e | Inr r \<Rightarrow> Inr (CHR ''%'' # r))"
  by simp

lemmas format_simps = format_from_plain format_from_plain_append format_from_percent_d
  format_from_percent_s format_from_percent_percent

lemma py_format_flow:
  "percent_free rn \<Longrightarrow> py_format (flow_template rn) (PyInt i) = Inr (flow_label rn i)"
  by (simp add: py_format_def format_args_def flow_label_def flow_template_def format_simps
        del: format_from.simps(3))


lemma py_format_load_template:
  "percent_free tn \<Longrightarrow>
     py_format (''%%d-ConstituentRouting-%s ('' @ tn @ '')'') (PyStr c) = Inr (load_template tn c)"
  by (simp add: py_format_def format_args_def load_template_def format_simps
        del: format_from.simps(3))

lemma py_format_load:
  "percent_free tn \<Longrightarrow> percent_free c \<Longrightarrow>
     py_format (load_template tn c) (PyInt i) = Inr (load_label tn c i)"
  by (simp add: py_format_def format_args_def load_label_def load_template_def format_simps
        del: format_from.simps(3))

lemma link_loop_step:
  "py_format lt upstream = Inr d \<Longrightarrow> py_format lt downstream = Inr s \<Longrightarrow>
     link_loop ((lt, src, dest) # rest) upstream downstream g =
       link_loop rest upstream downstream (g @ [Edge s d [src] [dest]])"
  by (simp add: add_edge_def)



lemma constituent_linkages_ok:
  "name_attr (transport self) = Some tn \<Longrightarrow> percent_free tn \<Longrightarrow>
     constituent_linkages self cs =
       Inr (map (\<lambda>c. (load_template tn c, ''outflowLoad'', ''inflowLoad'')) cs)"
proof (induction cs)
  case Nil
  then show ?case by simp
next
  case (Cons c cs)
  note py_format_load_template[OF Cons.prems(2), of c]
  with Cons show ?case
    by (simp add: get_name_def)
qed

lemma linkages_ok:
  "name_attr (routing self) = Some rn \<Longrightarrow> name_attr (transport self) = Some tn \<Longrightarrow>
   percent_free tn \<Longrightarrow>
     linkages self =
       Inr ((flow_template rn, ''outflow'', ''inflow'') #
            map (\<lambda>c. (load_template tn c, ''outflowLoad'', ''inflowLoad''))
              (constituents self))"
  by (simp add: linkages_def get_name_def constituent_linkages_ok flow_template_def)

lemma link_loop_load:
  "percent_free tn \<Longrightarrow> (\<forall>c\<in>set cs. percent_free c) \<Longrightarrow>
     link_loop (map (\<lambda>c. (load_template tn c, ''outflowLoad'', ''inflowLoad'')) cs)
         (PyInt up) (PyInt down) g =
       (g @ map (\<lambda>c. Edge (load_label tn c down) (load_label tn c up)
                         [''outflowLoad''] [''inflowLoad'']) cs, None)"
proof (induction cs arbitrary: g)
  case Nil
  then show ?case by simp
next
  case (Cons c cs)
  from Cons.prems have f: "\<And>i. py_format (load_template tn c) (PyInt i) = Inr (load_label tn c i)"
    by (intro py_format_load) simp_all
  from Cons.prems have
    ih: "\<And>g. link_loop (map (\<lambda>c. (load_template tn c, ''outflowLoad'', ''inflowLoad'')) cs)
              (PyInt up) (PyInt down) g =
       (g @ map (\<lambda>c. Edge (load_label tn c down) (load_label tn c up)
                         [''outflowLoad''] [''inflowLoad'']) cs, None)"
    by (intro Cons.IH) simp_all
  show ?case
    by (simp add: link_loop_step[OF f f] ih del: link_loop.simps)
qed

lemmas init_names =
  SemiLumpedCatchment_init_def n_defs percent_free_def

section \<open>The edges of the linker: claim C5\<close>

text \<open>
  Claim C5, as amended. For every call \<open>link_catchments(graph, upstream, downstream)\<close>
  with integer identifiers, on a descriptor whose routing and transport models have a name
  and where these names and the constituents hold no percent sign, the call ends without
  an exception and asks the graph for exactly \<open>1 + C\<close> edges: first the flow edge, from
  the flow label of the downstream identifier to the flow label of the upstream identifier,
  with attributes \<open>src=['outflow']\<close> and \<open>dest=['inflow']\<close>; then, for each
  constituent in order, the load edge from the load label of the downstream identifier to
  that of the upstream identifier, with attributes \<open>src=['outflowLoad']\<close> and
  \<open>dest=['inflowLoad']\<close>.
\<close>

theorem link_catchments_edges:
  assumes "name_attr (routing self) = Some rn" and "name_attr (transport self) = Some tn"
    and "percent_free rn" and "percent_free tn"
    and "\<forall>c\<in>set (constituents self). percent_free c"
  shows "link_catchments self g (PyInt up) (PyInt down) =
           (g @ Edge (flow_label rn down) (flow_label rn up) [''outflow''] [''inflow''] #
                map (\<lambda>c. Edge (load_label tn c down) (load_label tn c up)
                            [''outflowLoad''] [''inflowLoad'']) (constituents self),
            None) \<and>
         length (fst (link_catchments self g (PyInt up) (PyInt down))) =
           length g + (1 + length (constituents self))"
proof -
  have f: "\<And>i. py_format (flow_template rn) (PyInt i) = Inr (flow_label rn i)"
    by (rule py_format_flow[OF assms(3)])
  have "link_catchments self g (PyInt up) (PyInt down) =
           (g @ Edge (flow_label rn down) (flow_label rn up) [''outflow''] [''inflow''] #
                map (\<lambda>c. Edge (load_label tn c down) (load_label tn c up)
                            [''outflowLoad''] [''inflowLoad'']) (constituents self),
            None)"
    unfolding link_catchments_def linkages_ok[OF assms(1,2,4)]
    by (simp add: link_loop_step[OF f f] link_loop_load[OF assms(4,5)] del: link_loop.simps)
  then show ?thesis by simp
qed

theorem link_catchments_edges_witness:
  "name_attr (routing two_constituents) = Some ''Muskingum'' \<and>
   name_attr (transport two_constituents) = Some ''LumpedConstituentRouting'' \<and>
   percent_free ''Muskingum'' \<and> percent_free ''LumpedConstituentRouting'' \<and>
   constituents two_constituents = [''N'', ''P''] \<and> percent_free ''N'' \<and> percent_free ''P'' \<and>
   link_catchments two_constituents [] (PyInt 1) (PyInt 2) =
     ([Edge ''2-FlowRouting (Muskingum)'' ''1-FlowRouting (Muskingum)'' [''outflow''] [''inflow''],
       Edge ''2-ConstituentRouting-N (LumpedConstituentRouting)''
            ''1-ConstituentRouting-N (LumpedConstituentRouting)'' [''outflowLoad''] [''inflowLoad''],
       Edge ''2-ConstituentRouting-P (LumpedConstituentRouting)''
            ''1-ConstituentRouting-P (LumpedConstituentRouting)'' [''outflowLoad''] [''inflowLoad'']],
      None)"
proof -
  have n: "name_attr (routing two_constituents) = Some ''Muskingum''"
    "name_attr (transport two_constituents) = Some ''LumpedConstituentRouting''"
    by (simp_all add: two_constituents_def init_names)
  have p: "percent_free ''Muskingum''" "percent_free ''LumpedConstituentRouting''"
    "percent_free ''N''" "percent_free ''P''"
    by (simp_all add: percent_free_def)
  have c: "constituents two_constituents = [''N'', ''P'']"
    by (simp add: two_constituents_def)
  have a: "\<forall>c\<in>set (constituents two_constituents). percent_free c"
    by (simp add: c p)
  have l: "flow_label ''Muskingum'' 1 = ''1-FlowRouting (Muskingum)''"
    "flow_label ''Muskingum'' 2 = ''2-FlowRouting (Muskingum)''"
    "load_label ''LumpedConstituentRouting'' ''N'' 1 =
       ''1-ConstituentRouting-N (LumpedConstituentRouting)''"
    "load_label ''LumpedConstituentRouting'' ''N'' 2 =
       ''2-ConstituentRouting-N (LumpedConstituentRouting)''"
    "load_label ''LumpedConstituentRouting'' ''P'' 1 =
       ''1-ConstituentRouting-P (LumpedConstituentRouting)''"
    "load_label ''LumpedConstituentRouting'' ''P'' 2 =
       ''2-ConstituentRouting-P (LumpedConstituentRouting)''"
    by (simp_all add: flow_label_def load_label_def str_int_def digit_char_def)
  from link_catchments_edges[OF n p(1,2) a, of "[]" 1 2] n p c show ?thesis
    by (simp add: l)
qed

text \<open>
  Claim C5 as stated, for every call, fails on two kinds of input. With string identifiers
  the first \<open>%d\<close> raises \<open>TypeError\<close> and no edge is added. With integer identifiers
  and the constituent \<open>%d\<close>, the label template of the constituent holds two
  conversions for one argument: the flow edge is added, then \<open>TypeError\<close> is raised, so
  one edge is added where \<open>1 + C = 2\<close> are claimed.
\<close>

lemmas link_eval = link_catchments_def linkages_def get_name_def py_format_def py_str_def
  format_args_def
  add_edge_def beyond_fragment_def str_int_def digit_char_def

theorem link_catchments_counterexample:
  "link_catchments SemiLumpedCatchment_init [] (PyStr ''c1'') (PyStr ''c2'') =
     ([], Some TypeError) \<and>
   link_catchments percent_catchment [] (PyInt 1) (PyInt 2) =
     ([Edge ''2-FlowRouting (Muskingum)'' ''1-FlowRouting (Muskingum)'' [''outflow''] [''inflow'']],
      Some TypeError)"
  by (simp add: percent_catchment_def SemiLumpedCatchment_init_def n_defs link_eval)

section \<open>Identifiers that are not numbers: claim C9\<close>





end
